theory Spec2Isabelle
  imports Main "HOL-Library.Word"
begin

section \<open>JavaScript values\<close>

text \<open>
  The library is written in JavaScript and inspects its arguments at run time
  (\<^verbatim>\<open>typeof\<close>, \<^verbatim>\<open>instanceof\<close>, \<^verbatim>\<open>constructor.name\<close>, truthiness), so arguments are
  modelled as a datatype of run-time values:
  \<^item> \<open>Str\<close> is a primitive string, \<open>StringObject\<close> a \<^verbatim>\<open>new String(...)\<close> wrapper. Text is
    restricted to code points below 256 (one \<open>char\<close> each);
  \<^item> \<open>Number\<close> carries integers only (no fractions, NaN or infinities);
  \<^item> \<open>Uint8Array\<close> carries its bytes;
  \<^item> \<open>CryptoKey\<close> is a key handle made by the WebCrypto provider;
  \<^item> \<open>Obj c ps\<close> is any other object: \<open>c\<close> is what \<^verbatim>\<open>value.constructor.name\<close> reads,
    \<open>ps\<close> are its own enumerable properties in insertion order. It is an instance
    neither of \<^verbatim>\<open>String\<close> nor of \<^verbatim>\<open>Uint8Array\<close>.
\<close>

type_synonym byte = "8 word"

record crypto_key =
  key_material :: "byte list"
  key_hash :: string
  key_extractable :: bool
  key_usages :: "string list"

datatype js_value =
    Undefined
  | Null
  | Boolean bool
  | Number int
  | Str string
  | StringObject string
  | Uint8Array "byte list"
  | CryptoKey crypto_key
  | Obj string "(string \<times> js_value) list"

text \<open>
  The two \<^verbatim>\<open>throw new Error(...)\<close> sites of the library and a rejection coming from the
  WebCrypto provider. The message texts are not modelled. The three exported
  functions are \<^verbatim>\<open>async\<close>: a throw inside them is a rejected promise, and both are the
  \<open>Inl\<close> result here.
\<close>

datatype error =
    InvalidAlgorithm
  | InvalidInputType
  | ProviderFailure string

text \<open>ToBoolean, as used by \<^verbatim>\<open>||\<close>, \<^verbatim>\<open>?:\<close> and \<^verbatim>\<open>if\<close>.\<close>

fun truthy :: "js_value \<Rightarrow> bool" where
  "truthy Undefined = False"
| "truthy Null = False"
| "truthy (Boolean b) = b"
| "truthy (Number n) = (n \<noteq> 0)"
| "truthy (Str s) = (s \<noteq> [])"
| "truthy (StringObject s) = True"
| "truthy (Uint8Array bs) = True"
| "truthy (CryptoKey k) = True"
| "truthy (Obj c ps) = True"

text \<open>\<^verbatim>\<open>value?.constructor?.name\<close>: undefined (here \<open>None\<close>) on undefined and null.\<close>

fun constructor_name :: "js_value \<Rightarrow> string option" where
  "constructor_name Undefined = None"
| "constructor_name Null = None"
| "constructor_name (Boolean b) = Some ''Boolean''"
| "constructor_name (Number n) = Some ''Number''"
| "constructor_name (Str s) = Some ''String''"
| "constructor_name (StringObject s) = Some ''String''"
| "constructor_name (Uint8Array bs) = Some ''Uint8Array''"
| "constructor_name (CryptoKey k) = Some ''CryptoKey''"
| "constructor_name (Obj c ps) = Some c"

fun typeof_string :: "js_value \<Rightarrow> bool" where
  "typeof_string (Str s) = True"
| "typeof_string v = False"

fun instanceof_String :: "js_value \<Rightarrow> bool" where
  "instanceof_String (StringObject s) = True"
| "instanceof_String v = False"

fun instanceof_Uint8Array :: "js_value \<Rightarrow> bool" where
  "instanceof_Uint8Array (Uint8Array bs) = True"
| "instanceof_Uint8Array v = False"

subsection \<open>Number.prototype.toString and String.prototype.padStart\<close>

definition digit_char :: "nat \<Rightarrow> char" where
  "digit_char d = ''0123456789abcdefghijklmnopqrstuvwxyz'' ! (d mod 36)"

text \<open>
  \<^verbatim>\<open>n.toString(radix)\<close> for a non-negative integer \<open>n\<close>. JavaScript raises a RangeError
  for a radix outside 2..36; the library only uses radix 16, and the empty string
  stands for the error here.
\<close>

function number_toString :: "nat \<Rightarrow> nat \<Rightarrow> string" where
  "number_toString radix n =
     (if radix < 2 \<or> 36 < radix then []
      else if n < radix then [digit_char n]
      else number_toString radix (n div radix) @ [digit_char (n mod radix)])"
  by pat_completeness auto
termination
  by (relation "measure snd") auto

declare number_toString.simps [simp del]

text \<open>\<^verbatim>\<open>s.padStart(n, c)\<close> for a one-character pad string.\<close>

definition padStart :: "nat \<Rightarrow> char \<Rightarrow> string \<Rightarrow> string" where
  "padStart n c s = replicate (n - length s) c @ s"

subsection \<open>TextEncoder\<close>

text \<open>
  \<^verbatim>\<open>new TextEncoder().encode(s)\<close>: UTF-8. A code point below 128 is one byte, one from
  128 to 255 is two bytes.
\<close>

definition utf8_char :: "char \<Rightarrow> byte list" where
  "utf8_char c =
     (let n = (of_char c :: nat)
      in if n < 128 then [of_nat n]
         else [of_nat (192 + n div 64), of_nat (128 + n mod 64)])"

definition TextEncoder_encode :: "string \<Rightarrow> byte list" where
  "TextEncoder_encode s = concat (map utf8_char s)"

subsection \<open>Own properties and object spread\<close>

text \<open>
  The own enumerable properties that \<^verbatim>\<open>{...value}\<close> copies. A string (primitive or
  wrapped) contributes one property per character, named by its decimal index; a
  typed array one per element; a number or boolean none; a CryptoKey none (its
  attributes are accessors of the prototype).
\<close>

definition index_props :: "js_value list \<Rightarrow> (string \<times> js_value) list" where
  "index_props vs = map (\<lambda>i. (number_toString 10 i, vs ! i)) [0..<length vs]"

fun own_props :: "js_value \<Rightarrow> (string \<times> js_value) list" where
  "own_props (Str s) = index_props (map (\<lambda>c. Str [c]) s)"
| "own_props (StringObject s) = index_props (map (\<lambda>c. Str [c]) s)"
| "own_props (Uint8Array bs) = index_props (map (\<lambda>b. Number (uint b)) bs)"
| "own_props (Obj c ps) = ps"
| "own_props v = []"

text \<open>
  Reading a property of an object literal given as its list of properties: the last
  binding of a name wins (a later spread overwrites an earlier one), and a missing
  property reads as undefined.
\<close>

definition get_prop :: "(string \<times> js_value) list \<Rightarrow> string \<Rightarrow> js_value" where
  "get_prop ps name = (case map_of (rev ps) name of None \<Rightarrow> Undefined | Some v \<Rightarrow> v)"

text \<open>A default of a parameter or of a destructuring pattern applies to undefined only.\<close>

definition or_default :: "js_value \<Rightarrow> js_value \<Rightarrow> js_value" where
  "or_default v d = (if v = Undefined then d else v)"

section \<open>The WebCrypto provider\<close>

text \<open>
  \<^verbatim>\<open>subtleCrypto\<close> is chosen once when the module is loaded and is not part of the
  library, so it is a parameter of the model: three operations over a provider
  state of its own (its entropy, for instance). Each operation either rejects or
  returns its result.

  The \<^verbatim>\<open>length\<close> member of the key-generation parameters is \<^verbatim>\<open>keyLength * 8\<close>. For a
  number that is \<open>Bits (n * 8)\<close>; for any other operand the product depends on the
  run-time's numeric coercion, which is not modelled and is kept as \<open>CoercedBits v\<close>.
\<close>

datatype key_length = Bits int | CoercedBits js_value

record 'ps provider =
  prov_generateKey ::
    "js_value \<Rightarrow> key_length option \<Rightarrow> bool \<Rightarrow> string list \<Rightarrow> 'ps \<Rightarrow> (error + crypto_key) \<times> 'ps"
  prov_importKey ::
    "byte list \<Rightarrow> js_value \<Rightarrow> bool \<Rightarrow> string list \<Rightarrow> 'ps \<Rightarrow> (error + crypto_key) \<times> 'ps"
  prov_sign ::
    "js_value \<Rightarrow> byte list \<Rightarrow> 'ps \<Rightarrow> (error + byte list) \<times> 'ps"

text \<open>Every call made to the provider is recorded, in the order it is issued.\<close>

datatype event =
    GenerateKeyCall js_value "key_length option" bool "string list"
  | ImportKeyCall "byte list" js_value bool "string list"
  | SignCall js_value "byte list"

record 'ps world =
  calls :: "event list"
  pstate :: 'ps

definition subtle_generateKey ::
  "'ps provider \<Rightarrow> js_value \<Rightarrow> key_length option \<Rightarrow> bool \<Rightarrow> string list
     \<Rightarrow> 'ps world \<Rightarrow> (error + crypto_key) \<times> 'ps world" where
  "subtle_generateKey P hash len extractable usages w =
     (case prov_generateKey P hash len extractable usages (pstate w) of
        (r, p) \<Rightarrow> (r, \<lparr>calls = calls w @ [GenerateKeyCall hash len extractable usages],
                      pstate = p\<rparr>))"

definition subtle_importKey ::
  "'ps provider \<Rightarrow> byte list \<Rightarrow> js_value \<Rightarrow> bool \<Rightarrow> string list
     \<Rightarrow> 'ps world \<Rightarrow> (error + crypto_key) \<times> 'ps world" where
  "subtle_importKey P raw hash extractable usages w =
     (case prov_importKey P raw hash extractable usages (pstate w) of
        (r, p) \<Rightarrow> (r, \<lparr>calls = calls w @ [ImportKeyCall raw hash extractable usages],
                      pstate = p\<rparr>))"

definition subtle_sign ::
  "'ps provider \<Rightarrow> js_value \<Rightarrow> byte list \<Rightarrow> 'ps world \<Rightarrow> (error + byte list) \<times> 'ps world" where
  "subtle_sign P key message w =
     (case prov_sign P key message (pstate w) of
        (r, p) \<Rightarrow> (r, \<lparr>calls = calls w @ [SignCall key message], pstate = p\<rparr>))"

section \<open>The library\<close>

subsection \<open>validateAlgorithm\<close>

definition allowedAlgorithms :: "js_value list" where
  "allowedAlgorithms = [Str ''SHA-1'', Str ''SHA-256'', Str ''SHA-384'', Str ''SHA-512'']"

text \<open>
  \<^verbatim>\<open>Array.prototype.includes\<close> compares with SameValueZero. The array holds primitive
  strings, which are compared by value; a wrapper object is never equal to one.
\<close>

definition array_includes :: "js_value list \<Rightarrow> js_value \<Rightarrow> bool" where
  "array_includes xs v = (v \<in> set xs)"

definition validateAlgorithm :: "js_value \<Rightarrow> error + unit" where
  "validateAlgorithm algorithm =
     (if \<not> array_includes allowedAlgorithms algorithm then Inl InvalidAlgorithm
      else Inr ())"

subsection \<open>validateValueOrConvertToUint8Array\<close>

fun string_data :: "js_value \<Rightarrow> string" where
  "string_data (Str s) = s"
| "string_data (StringObject s) = s"
| "string_data v = []"

fun array_data :: "js_value \<Rightarrow> byte list" where
  "array_data (Uint8Array bs) = bs"
| "array_data v = []"

text \<open>The result is the content of the returned \<^verbatim>\<open>Uint8Array\<close>.\<close>

definition validateValueOrConvertToUint8Array :: "js_value \<Rightarrow> error + byte list" where
  "validateValueOrConvertToUint8Array v =
     (if \<not> (typeof_string v \<or> instanceof_String v \<or> instanceof_Uint8Array v)
      then Inl InvalidInputType
      else if \<not> instanceof_Uint8Array v then Inr (TextEncoder_encode (string_data v))
      else Inr (array_data v))"

subsection \<open>generateSecretKey\<close>

fun js_times8 :: "js_value \<Rightarrow> key_length" where
  "js_times8 (Number n) = Bits (n * 8)"
| "js_times8 v = CoercedBits v"

text \<open>
  The argument is the options object, given by its properties; the destructuring
  pattern reads \<^verbatim>\<open>keyLength\<close> and \<^verbatim>\<open>algorithm\<close> with their defaults.
\<close>

definition generateSecretKey ::
  "'ps provider \<Rightarrow> (string \<times> js_value) list \<Rightarrow> 'ps world \<Rightarrow> (error + crypto_key) \<times> 'ps world" where
  "generateSecretKey P opts w =
     (let keyLength = or_default (get_prop opts ''keyLength'') (Number 64);
          algorithm = or_default (get_prop opts ''algorithm'') (Str ''SHA-256'')
      in case validateAlgorithm algorithm of
           Inl e \<Rightarrow> (Inl e, w)
         | Inr u \<Rightarrow>
             subtle_generateKey P algorithm
               (if truthy keyLength then Some (js_times8 keyLength) else None)
               True [''sign''] w)"

subsection \<open>hmac\<close>

text \<open>The signature bytes as hex: \<^verbatim>\<open>b.toString(16).padStart(2, "0")\<close>, joined.\<close>

definition hashHex :: "byte list \<Rightarrow> string" where
  "hashHex signature =
     concat (map (\<lambda>b. padStart 2 (CHR ''0'') (number_toString 16 (unat b))) signature)"

text \<open>
  \<open>hmac\<close> runs without suspending up to its first call to the provider, so it is
  split there. \<open>hmac_prepare\<close> is the part up to and including \<^verbatim>\<open>importKey\<close>: it
  validates the algorithm, the message and the key and yields the key to sign with
  and the message bytes. \<open>hmac_sign\<close> is the rest: \<^verbatim>\<open>sign\<close> and the hex encoding.
\<close>

definition hmac_prepare ::
  "'ps provider \<Rightarrow> js_value \<Rightarrow> js_value \<Rightarrow> js_value \<Rightarrow> 'ps world
     \<Rightarrow> (error + js_value \<times> byte list) \<times> 'ps world" where
  "hmac_prepare P secretKey message algorithm0 w =
     (let algorithm = or_default algorithm0 (Str ''SHA-256'')
      in case validateAlgorithm algorithm of
           Inl e \<Rightarrow> (Inl e, w)
         | Inr u \<Rightarrow>
            (case validateValueOrConvertToUint8Array message of
               Inl e \<Rightarrow> (Inl e, w)
             | Inr messageUint8Array \<Rightarrow>
                (if constructor_name secretKey \<noteq> Some ''CryptoKey'' then
                   (case validateValueOrConvertToUint8Array secretKey of
                      Inl e \<Rightarrow> (Inl e, w)
                    | Inr keyUint8Array \<Rightarrow>
                       (case subtle_importKey P keyUint8Array algorithm False [''sign''] w of
                          (Inl e, w') \<Rightarrow> (Inl e, w')
                        | (Inr k, w') \<Rightarrow> (Inr (CryptoKey k, messageUint8Array), w')))
                 else (Inr (secretKey, messageUint8Array), w))))"

definition hmac_sign ::
  "'ps provider \<Rightarrow> (error + js_value \<times> byte list) \<Rightarrow> 'ps world \<Rightarrow> (error + string) \<times> 'ps world" where
  "hmac_sign P prepared w =
     (case prepared of
        Inl e \<Rightarrow> (Inl e, w)
      | Inr (cryptoKey, messageUint8Array) \<Rightarrow>
         (case subtle_sign P cryptoKey messageUint8Array w of
            (Inl e, w') \<Rightarrow> (Inl e, w')
          | (Inr signature, w') \<Rightarrow> (Inr (hashHex signature), w')))"

definition hmac ::
  "'ps provider \<Rightarrow> js_value \<Rightarrow> js_value \<Rightarrow> js_value \<Rightarrow> 'ps world \<Rightarrow> (error + string) \<times> 'ps world" where
  "hmac P secretKey message algorithm w =
     (case hmac_prepare P secretKey message algorithm w of
        (prepared, w') \<Rightarrow> hmac_sign P prepared w')"

subsection \<open>webTimingSafeEqual\<close>

text \<open>
  \<^verbatim>\<open>Promise.all([hmac(k, l, a), hmac(k, r, a)])\<close>: both calls are started, each runs up
  to its first provider call, and both are then completed; the provider serves its
  calls in the order they were issued. The first failure in that order is the
  rejection of \<^verbatim>\<open>Promise.all\<close>; a call that did not fail still runs to its end.
\<close>

definition promise_all_hmac ::
  "'ps provider \<Rightarrow> js_value \<Rightarrow> js_value \<Rightarrow> js_value \<Rightarrow> js_value \<Rightarrow> 'ps world
     \<Rightarrow> (error + string \<times> string) \<times> 'ps world" where
  "promise_all_hmac P secretKey left right algorithm w =
     (case hmac_prepare P secretKey left algorithm w of (pl, w1) \<Rightarrow>
      case hmac_prepare P secretKey right algorithm w1 of (pr, w2) \<Rightarrow>
      case hmac_sign P pl w2 of (sl, w3) \<Rightarrow>
      case hmac_sign P pr w3 of (sr, w4) \<Rightarrow>
        (case pl of
           Inl e \<Rightarrow> Inl e
         | Inr x \<Rightarrow>
            (case pr of
               Inl e \<Rightarrow> Inl e
             | Inr y \<Rightarrow>
                (case sl of
                   Inl e \<Rightarrow> Inl e
                 | Inr leftHMAC \<Rightarrow>
                    (case sr of
                       Inl e \<Rightarrow> Inl e
                     | Inr rightHMAC \<Rightarrow> Inr (leftHMAC, rightHMAC)))),
         w4))"

text \<open>
  The options object (\<^verbatim>\<open>{}\<close> when the argument is omitted); a member that is not given
  is \<open>Undefined\<close>.
\<close>

record options =
  secretKey :: js_value
  keyLength :: js_value
  keyAlgorithm :: js_value
  hmacAlgorithm :: js_value

text \<open>
  The argument of the call to \<open>generateSecretKey\<close>:
  \<^verbatim>\<open>{...(keyAlgorithm ? keyAlgorithm : {}), ...(keyLength ? keyLength : {})}\<close>.
\<close>

definition generated_key_options :: "options \<Rightarrow> (string \<times> js_value) list" where
  "generated_key_options opts =
     (if truthy (keyAlgorithm opts) then own_props (keyAlgorithm opts) else [])
     @ (if truthy (keyLength opts) then own_props (keyLength opts) else [])"

text \<open>
  The key of the comparison:
  \<^verbatim>\<open>options?.secretKey || (await generateSecretKey({...}))\<close>.
\<close>

definition resolve_secretKey ::
  "'ps provider \<Rightarrow> options \<Rightarrow> 'ps world \<Rightarrow> (error + js_value) \<times> 'ps world" where
  "resolve_secretKey P opts w =
     (if truthy (secretKey opts) then (Inr (secretKey opts), w)
      else (case generateSecretKey P (generated_key_options opts) w of
              (Inl e, w') \<Rightarrow> (Inl e, w')
            | (Inr k, w') \<Rightarrow> (Inr (CryptoKey k), w')))"

definition webTimingSafeEqual ::
  "'ps provider \<Rightarrow> js_value \<Rightarrow> js_value \<Rightarrow> options \<Rightarrow> 'ps world \<Rightarrow> (error + bool) \<times> 'ps world" where
  "webTimingSafeEqual P left right opts w =
     (case (if truthy (keyAlgorithm opts) then validateAlgorithm (keyAlgorithm opts) else Inr ()) of
        Inl e \<Rightarrow> (Inl e, w)
      | Inr u \<Rightarrow>
     (case (if truthy (hmacAlgorithm opts) then validateAlgorithm (hmacAlgorithm opts) else Inr ()) of
        Inl e \<Rightarrow> (Inl e, w)
      | Inr u \<Rightarrow>
     (case resolve_secretKey P opts w of
        (Inl e, w1) \<Rightarrow> (Inl e, w1)
      | (Inr key, w1) \<Rightarrow>
     (case validateValueOrConvertToUint8Array left of
        Inl e \<Rightarrow> (Inl e, w1)
      | Inr leftUint8Array \<Rightarrow>
     (case validateValueOrConvertToUint8Array right of
        Inl e \<Rightarrow> (Inl e, w1)
      | Inr rightUint8Array \<Rightarrow>
        (if length leftUint8Array \<noteq> length rightUint8Array \<or> length leftUint8Array = 0
         then (Inr False, w1)
         else
           (case promise_all_hmac P key (Uint8Array leftUint8Array) (Uint8Array rightUint8Array)
                   (if truthy (hmacAlgorithm opts) then hmacAlgorithm opts else Undefined) w1 of
              (Inl e, w2) \<Rightarrow> (Inl e, w2)
            | (Inr (leftHMAC, rightHMAC), w2) \<Rightarrow> (Inr (leftHMAC = rightHMAC), w2))))))))"

section \<open>A concrete provider\<close>

text \<open>
  A small deterministic provider with the interface and the error behaviour of
  WebCrypto's HMAC operations, used to run the library on concrete inputs. Its
  state is a counter from which key material is drawn. Its signature is a simple
  mixing function with the digest size of the key's hash; it stands in for the MAC
  and has none of its cryptographic strength.
\<close>

definition digest_size :: "string \<Rightarrow> nat" where
  "digest_size h =
     (if h = ''SHA-1'' then 20 else if h = ''SHA-256'' then 32
      else if h = ''SHA-384'' then 48 else if h = ''SHA-512'' then 64 else 0)"

definition block_size :: "string \<Rightarrow> nat" where
  "block_size h = (if h = ''SHA-384'' \<or> h = ''SHA-512'' then 128 else 64)"

definition fresh_key :: "string \<Rightarrow> nat \<Rightarrow> bool \<Rightarrow> string list \<Rightarrow> nat \<Rightarrow> (error + crypto_key) \<times> nat" where
  "fresh_key h n extractable usages seed =
     (Inr \<lparr>key_material = map (\<lambda>i. of_nat (seed + i)) [0..<n], key_hash = h,
            key_extractable = extractable, key_usages = usages\<rparr>,
      seed + n)"

fun model_generateKey ::
  "js_value \<Rightarrow> key_length option \<Rightarrow> bool \<Rightarrow> string list \<Rightarrow> nat \<Rightarrow> (error + crypto_key) \<times> nat" where
  "model_generateKey (Str h) len extractable usages seed =
     (if digest_size h = 0 then (Inl (ProviderFailure ''NotSupportedError''), seed)
      else if usages = [] then (Inl (ProviderFailure ''SyntaxError''), seed)
      else (case len of
              None \<Rightarrow> fresh_key h (block_size h) extractable usages seed
            | Some (Bits n) \<Rightarrow>
                (if n \<le> 0 then (Inl (ProviderFailure ''OperationError''), seed)
                 else fresh_key h ((nat n + 7) div 8) extractable usages seed)
            | Some (CoercedBits v) \<Rightarrow> (Inl (ProviderFailure ''TypeError''), seed)))"
| "model_generateKey v len extractable usages seed =
     (Inl (ProviderFailure ''NotSupportedError''), seed)"

fun model_importKey ::
  "byte list \<Rightarrow> js_value \<Rightarrow> bool \<Rightarrow> string list \<Rightarrow> nat \<Rightarrow> (error + crypto_key) \<times> nat" where
  "model_importKey raw (Str h) extractable usages seed =
     (if digest_size h = 0 then (Inl (ProviderFailure ''NotSupportedError''), seed)
      else if usages = [] then (Inl (ProviderFailure ''SyntaxError''), seed)
      else if raw = [] then (Inl (ProviderFailure ''DataError''), seed)
      else (Inr \<lparr>key_material = raw, key_hash = h,
                  key_extractable = extractable, key_usages = usages\<rparr>, seed))"
| "model_importKey raw v extractable usages seed =
     (Inl (ProviderFailure ''NotSupportedError''), seed)"

definition model_mac :: "crypto_key \<Rightarrow> byte list \<Rightarrow> byte list" where
  "model_mac k message =
     map (\<lambda>i. of_nat i * foldr (+) (key_material k) 1 + foldr (\<lambda>b acc. 3 * acc + b) message 7)
       [0..<digest_size (key_hash k)]"

fun model_sign :: "js_value \<Rightarrow> byte list \<Rightarrow> nat \<Rightarrow> (error + byte list) \<times> nat" where
  "model_sign (CryptoKey k) message seed =
     (if ''sign'' \<in> set (key_usages k) then (Inr (model_mac k message), seed)
      else (Inl (ProviderFailure ''InvalidAccessError''), seed))"
| "model_sign v message seed = (Inl (ProviderFailure ''TypeError''), seed)"

definition model_provider :: "nat provider" where
  "model_provider =
     \<lparr>prov_generateKey = model_generateKey, prov_importKey = model_importKey,
      prov_sign = model_sign\<rparr>"

definition no_options :: options where
  "no_options =
     \<lparr>secretKey = Undefined, keyLength = Undefined, keyAlgorithm = Undefined,
      hmacAlgorithm = Undefined\<rparr>"

definition initial_world :: "nat world" where
  "initial_world = \<lparr>calls = [], pstate = 0\<rparr>"

section \<open>Predicates on providers and events\<close>

text \<open>
  A provider signs deterministically when the results of \<^verbatim>\<open>importKey\<close> and \<^verbatim>\<open>sign\<close> are
  functions of their arguments alone, whatever the provider's state. Key generation
  is not constrained.
\<close>

definition deterministic_signing :: "'ps provider \<Rightarrow> bool" where
  "deterministic_signing P \<longleftrightarrow>
     (\<forall>raw h x u p p'. fst (prov_importKey P raw h x u p) = fst (prov_importKey P raw h x u p'))
   \<and> (\<forall>k m p p'. fst (prov_sign P k m p) = fst (prov_sign P k m p'))"

text \<open>
  What WebCrypto specifies for HMAC: an imported key is bound to the hash it was
  imported for, and a signature has the digest size of the hash its key is bound to.
\<close>

definition digest_sized :: "'ps provider \<Rightarrow> bool" where
  "digest_sized P \<longleftrightarrow>
     (\<forall>raw h x u p k p'. prov_importKey P raw (Str h) x u p = (Inr k, p') \<longrightarrow> key_hash k = h)
   \<and> (\<forall>k m p s p'. prov_sign P (CryptoKey k) m p = (Inr s, p') \<longrightarrow>
          length s = digest_size (key_hash k))"

fun is_generateKey :: "event \<Rightarrow> bool" where
  "is_generateKey (GenerateKeyCall h l x u) = True"
| "is_generateKey ev = False"

fun is_importKey :: "event \<Rightarrow> bool" where
  "is_importKey (ImportKeyCall raw h x u) = True"
| "is_importKey ev = False"

definition decimal_digit :: "char \<Rightarrow> bool" where
  "decimal_digit c \<longleftrightarrow> c \<in> set ''0123456789''"

text \<open>Values that occur when the library is run on the concrete provider.\<close>

definition generated_key :: crypto_key where
  "generated_key =
     \<lparr>key_material = map of_nat [0..<64], key_hash = ''SHA-256'',
      key_extractable = True, key_usages = [''sign'']\<rparr>"

definition after_generation :: "nat world" where
  "after_generation =
     \<lparr>calls = [GenerateKeyCall (Str ''SHA-256'') (Some (Bits 512)) True [''sign'']],
      pstate = 64\<rparr>"

definition imported_key :: crypto_key where
  "imported_key =
     \<lparr>key_material = TextEncoder_encode ''k'', key_hash = ''SHA-512'',
      key_extractable = False, key_usages = [''sign'']\<rparr>"

section \<open>Properties\<close>

subsection \<open>Hex encoding\<close>

lemma digit_char_hex_all: "\<forall>d \<in> set [0..<16]. digit_char d = ''0123456789abcdef'' ! d"
  by code_simp

lemma digit_char_hex: "d < 16 \<Longrightarrow> digit_char d = ''0123456789abcdef'' ! d"
  using digit_char_hex_all by simp

lemma hex_byte:
  assumes "n < 256"
  shows "padStart 2 (CHR ''0'') (number_toString 16 n) = [digit_char (n div 16), digit_char (n mod 16)]"
proof (cases "n < 16")
  case True
  then show ?thesis
    by (simp add: number_toString.simps [of 16 n] padStart_def digit_char_def)
next
  case False
  with assms have "n div 16 < 16" by simp
  with False show ?thesis
    by (simp add: number_toString.simps [of 16 n] number_toString.simps [of 16 "n div 16"] padStart_def)
qed

lemma unat_byte_less: "unat (b :: byte) < 256"
  using unsigned_less [of b] by simp

lemma hashHex_Nil: "hashHex [] = []"
  by (simp add: hashHex_def)

lemma hashHex_Cons:
  "hashHex (b # bs) = digit_char (unat b div 16) # digit_char (unat b mod 16) # hashHex bs"
  by (simp add: hashHex_def hex_byte [OF unat_byte_less])

lemma hashHex_length: "length (hashHex bs) = 2 * length bs"
  by (induction bs) (simp_all add: hashHex_Nil hashHex_Cons)

lemma hashHex_eq:
  "hashHex s = concat (map (\<lambda>b. [''0123456789abcdef'' ! (unat b div 16),
                                   ''0123456789abcdef'' ! (unat b mod 16)]) s)"
proof (induction s)
  case Nil
  show ?case by (simp add: hashHex_Nil)
next
  case (Cons b bs)
  have "unat b div 16 < 16" using unat_byte_less [of b] by simp
  then have 1: "digit_char (unat b div 16) = ''0123456789abcdef'' ! (unat b div 16)"
    by (rule digit_char_hex)
  have 2: "digit_char (unat b mod 16) = ''0123456789abcdef'' ! (unat b mod 16)"
    by (rule digit_char_hex) simp
  from Cons show ?case
    by (simp only: hashHex_Cons 1 2 list.map concat.simps append_Cons append_Nil)
qed

subsection \<open>Provider calls\<close>

lemma subtle_generateKey_eq:
  "subtle_generateKey P h l x u w =
     (fst (prov_generateKey P h l x u (pstate w)),
      \<lparr>calls = calls w @ [GenerateKeyCall h l x u],
       pstate = snd (prov_generateKey P h l x u (pstate w))\<rparr>)"
  by (simp add: subtle_generateKey_def split: prod.splits)

lemma subtle_importKey_eq:
  "subtle_importKey P raw h x u w =
     (fst (prov_importKey P raw h x u (pstate w)),
      \<lparr>calls = calls w @ [ImportKeyCall raw h x u],
       pstate = snd (prov_importKey P raw h x u (pstate w))\<rparr>)"
  by (simp add: subtle_importKey_def split: prod.splits)

lemma subtle_sign_eq:
  "subtle_sign P k m w =
     (fst (prov_sign P k m (pstate w)),
      \<lparr>calls = calls w @ [SignCall k m], pstate = snd (prov_sign P k m (pstate w))\<rparr>)"
  by (simp add: subtle_sign_def split: prod.splits)

lemma hmac_sign_Inl: "hmac_sign P (Inl e) w = (Inl e, w)"
  by (simp add: hmac_sign_def)

lemma hmac_sign_Inr:
  "hmac_sign P (Inr (k, m)) w =
     ((case fst (prov_sign P k m (pstate w)) of Inl e \<Rightarrow> Inl e | Inr s \<Rightarrow> Inr (hashHex s)),
      \<lparr>calls = calls w @ [SignCall k m], pstate = snd (prov_sign P k m (pstate w))\<rparr>)"
  by (simp add: hmac_sign_def subtle_sign_eq split: sum.splits)

lemma hmac_sign_det:
  assumes "deterministic_signing P"
  shows "fst (hmac_sign P pr w) = fst (hmac_sign P pr w')"
proof (cases pr)
  case (Inl e)
  then show ?thesis by (simp add: hmac_sign_Inl)
next
  case (Inr x)
  obtain k m where x: "x = (k, m)" by (cases x)
  from assms have "fst (prov_sign P k m (pstate w)) = fst (prov_sign P k m (pstate w'))"
    unfolding deterministic_signing_def by blast
  with Inr x show ?thesis by (simp add: hmac_sign_Inr)
qed

lemma hmac_prepare_fst:
  "fst (hmac_prepare P key message algorithm w) =
     (case validateAlgorithm (or_default algorithm (Str ''SHA-256'')) of
        Inl e \<Rightarrow> Inl e
      | Inr u \<Rightarrow>
         (case validateValueOrConvertToUint8Array message of
            Inl e \<Rightarrow> Inl e
          | Inr m \<Rightarrow>
             (if constructor_name key \<noteq> Some ''CryptoKey'' then
                (case validateValueOrConvertToUint8Array key of
                   Inl e \<Rightarrow> Inl e
                 | Inr raw \<Rightarrow>
                    (case fst (prov_importKey P raw (or_default algorithm (Str ''SHA-256''))
                                 False [''sign''] (pstate w)) of
                       Inl e \<Rightarrow> Inl e
                     | Inr k \<Rightarrow> Inr (CryptoKey k, m)))
              else Inr (key, m))))"
  by (simp add: hmac_prepare_def Let_def subtle_importKey_eq split: sum.splits)

lemma hmac_prepare_det:
  assumes "deterministic_signing P"
  shows "fst (hmac_prepare P key message algorithm w) = fst (hmac_prepare P key message algorithm w')"
proof -
  from assms have "\<And>raw h. fst (prov_importKey P raw h False [''sign''] (pstate w))
      = fst (prov_importKey P raw h False [''sign''] (pstate w'))"
    unfolding deterministic_signing_def by blast
  then show ?thesis by (simp add: hmac_prepare_fst split: sum.splits)
qed

lemma hmac_fst:
  "fst (hmac P key message algorithm w) =
     fst (hmac_sign P (fst (hmac_prepare P key message algorithm w))
                      (snd (hmac_prepare P key message algorithm w)))"
  by (simp add: hmac_def split: prod.splits)

lemma validateAlgorithm_Str:
  "validateAlgorithm a = Inr u \<Longrightarrow> a = Str (string_data a)"
  by (auto simp: validateAlgorithm_def array_includes_def allowedAlgorithms_def split: if_splits)

lemma hmac_prepare_Inr:
  assumes "hmac_prepare P key message algorithm w = (Inr (ck, m), w1)"
  shows "validateAlgorithm (or_default algorithm (Str ''SHA-256'')) = Inr ()
       \<and> validateValueOrConvertToUint8Array message = Inr m
       \<and> ((constructor_name key = Some ''CryptoKey'' \<and> ck = key \<and> w1 = w)
          \<or> (constructor_name key \<noteq> Some ''CryptoKey''
             \<and> (\<exists>raw k. validateValueOrConvertToUint8Array key = Inr raw \<and> ck = CryptoKey k
                  \<and> subtle_importKey P raw (or_default algorithm (Str ''SHA-256'')) False [''sign''] w
                      = (Inr k, w1))))"
  using assms
  by (auto simp: hmac_prepare_def Let_def split: sum.splits prod.splits if_splits)

lemma hmac_Inr:
  assumes "hmac P key message algorithm w = (Inr h, w')"
  shows "\<exists>ck m w1 s. hmac_prepare P key message algorithm w = (Inr (ck, m), w1)
          \<and> prov_sign P ck m (pstate w1) = (Inr s, pstate w')
          \<and> calls w' = calls w1 @ [SignCall ck m] \<and> h = hashHex s"
proof -
  obtain pr w1 where p: "hmac_prepare P key message algorithm w = (pr, w1)"
    by (cases "hmac_prepare P key message algorithm w")
  with assms have s: "hmac_sign P pr w1 = (Inr h, w')" by (simp add: hmac_def)
  then obtain ck m where pr: "pr = Inr (ck, m)" by (cases pr) (auto simp: hmac_sign_Inl)
  from s pr obtain sg where "fst (prov_sign P ck m (pstate w1)) = Inr sg" "h = hashHex sg"
      "w' = \<lparr>calls = calls w1 @ [SignCall ck m], pstate = snd (prov_sign P ck m (pstate w1))\<rparr>"
    by (auto simp: hmac_sign_Inr split: sum.splits)
  then have "prov_sign P ck m (pstate w1) = (Inr sg, pstate w')" "calls w' = calls w1 @ [SignCall ck m]"
    by (simp_all add: prod_eq_iff)
  with p pr \<open>h = hashHex sg\<close> show ?thesis by blast
qed

lemma hmac_named_key:
  assumes "validateAlgorithm (or_default algorithm (Str ''SHA-256'')) = Inr ()"
      and "validateValueOrConvertToUint8Array message = Inr m"
      and "constructor_name key = Some ''CryptoKey''"
  shows "hmac P key message algorithm w =
           (case subtle_sign P key m w of
              (Inl e, w') \<Rightarrow> (Inl e, w')
            | (Inr s, w') \<Rightarrow> (Inr (hashHex s), w'))"
  using assms by (simp add: hmac_def hmac_prepare_def hmac_sign_def Let_def)

lemma hmac_prepare_named:
  assumes "constructor_name key = Some ''CryptoKey''"
  shows "snd (hmac_prepare P key message algorithm w) = w
       \<and> (\<forall>k m. fst (hmac_prepare P key message algorithm w) = Inr (k, m) \<longrightarrow> k = key)"
  using assms by (simp add: hmac_prepare_def Let_def split: sum.splits)

lemma hmac_prepare_calls:
  "\<exists>evs. calls (snd (hmac_prepare P key message algorithm w)) = calls w @ evs
         \<and> (\<forall>ev \<in> set evs. \<not> is_generateKey ev)"
  by (simp add: hmac_prepare_def Let_def subtle_importKey_eq split: sum.splits)

lemma hmac_sign_calls:
  "\<exists>evs. calls (snd (hmac_sign P pr w)) = calls w @ evs
         \<and> (\<forall>ev \<in> set evs. \<exists>k m. pr = Inr (k, m) \<and> ev = SignCall k m)"
proof (cases pr)
  case (Inl e)
  then show ?thesis by (simp add: hmac_sign_Inl)
next
  case (Inr x)
  then show ?thesis by (cases x) (simp add: hmac_sign_Inr)
qed

lemma promise_all_hmac_snd:
  "snd (promise_all_hmac P key l r a w) =
     snd (hmac_sign P (fst (hmac_prepare P key r a (snd (hmac_prepare P key l a w))))
       (snd (hmac_sign P (fst (hmac_prepare P key l a w))
          (snd (hmac_prepare P key r a (snd (hmac_prepare P key l a w)))))))"
  by (simp add: promise_all_hmac_def split: prod.splits)

lemma promise_all_hmac_calls:
  "\<exists>evs. calls (snd (promise_all_hmac P key l r a w)) = calls w @ evs
         \<and> (\<forall>ev \<in> set evs. \<not> is_generateKey ev)"
proof -
  let ?w1 = "snd (hmac_prepare P key l a w)"
  let ?w2 = "snd (hmac_prepare P key r a ?w1)"
  let ?pl = "fst (hmac_prepare P key l a w)"
  let ?pr = "fst (hmac_prepare P key r a ?w1)"
  let ?w3 = "snd (hmac_sign P ?pl ?w2)"
  let ?w4 = "snd (hmac_sign P ?pr ?w3)"
  from hmac_prepare_calls [of P key l a w] obtain e1 where
    1: "calls ?w1 = calls w @ e1" "\<forall>ev \<in> set e1. \<not> is_generateKey ev" by blast
  from hmac_prepare_calls [of P key r a ?w1] obtain e2 where
    2: "calls ?w2 = calls ?w1 @ e2" "\<forall>ev \<in> set e2. \<not> is_generateKey ev" by blast
  from hmac_sign_calls [of P ?pl ?w2] obtain e3 where
    3: "calls ?w3 = calls ?w2 @ e3" "\<forall>ev \<in> set e3. \<exists>k m. ev = SignCall k m" by blast
  from hmac_sign_calls [of P ?pr ?w3] obtain e4 where
    4: "calls ?w4 = calls ?w3 @ e4" "\<forall>ev \<in> set e4. \<exists>k m. ev = SignCall k m" by blast
  have "calls ?w4 = calls w @ (e1 @ e2 @ e3 @ e4)" by (simp add: 1 2 3 4)
  moreover have "\<forall>ev \<in> set (e1 @ e2 @ e3 @ e4). \<not> is_generateKey ev"
    using 1(2) 2(2) 3(2) 4(2) by auto
  ultimately show ?thesis unfolding promise_all_hmac_snd by blast
qed

lemma promise_all_hmac_calls_named:
  assumes "constructor_name key = Some ''CryptoKey''"
  shows "\<exists>evs. calls (snd (promise_all_hmac P key l r a w)) = calls w @ evs
         \<and> (\<forall>ev \<in> set evs. \<exists>m. ev = SignCall key m)"
proof -
  let ?pl = "fst (hmac_prepare P key l a w)"
  let ?pr = "fst (hmac_prepare P key r a w)"
  let ?w3 = "snd (hmac_sign P ?pl w)"
  let ?w4 = "snd (hmac_sign P ?pr ?w3)"
  note n = hmac_prepare_named [OF assms]
  from hmac_sign_calls [of P ?pl w] obtain e3 where
    3: "calls ?w3 = calls w @ e3" "\<forall>ev \<in> set e3. \<exists>k m. ?pl = Inr (k, m) \<and> ev = SignCall k m" by blast
  from hmac_sign_calls [of P ?pr ?w3] obtain e4 where
    4: "calls ?w4 = calls ?w3 @ e4" "\<forall>ev \<in> set e4. \<exists>k m. ?pr = Inr (k, m) \<and> ev = SignCall k m" by blast
  from 3(2) n [of P l a w] have s3: "\<forall>ev \<in> set e3. \<exists>m. ev = SignCall key m" by blast
  from 4(2) n [of P r a w] have s4: "\<forall>ev \<in> set e4. \<exists>m. ev = SignCall key m" by blast
  have "calls ?w4 = calls w @ (e3 @ e4)" by (simp add: 3 4)
  moreover have "\<forall>ev \<in> set (e3 @ e4). \<exists>m. ev = SignCall key m" using s3 s4 by auto
  ultimately show ?thesis unfolding promise_all_hmac_snd by (simp only: n) blast
qed

lemma generateSecretKey_calls:
  "\<exists>evs. calls (snd (generateSecretKey P opts w)) = calls w @ evs
         \<and> length evs \<le> 1 \<and> (\<forall>ev \<in> set evs. is_generateKey ev)"
  by (simp add: generateSecretKey_def Let_def subtle_generateKey_eq split: sum.splits)

lemma resolve_secretKey_snd:
  "snd (resolve_secretKey P opts w) =
     (if truthy (secretKey opts) then w
      else snd (generateSecretKey P (generated_key_options opts) w))"
  by (simp add: resolve_secretKey_def split: prod.splits sum.splits)

lemma resolve_secretKey_calls:
  "\<exists>evs. calls (snd (resolve_secretKey P opts w)) = calls w @ evs
         \<and> length evs \<le> 1 \<and> (\<forall>ev \<in> set evs. is_generateKey ev)"
  unfolding resolve_secretKey_snd using generateSecretKey_calls [of P "generated_key_options opts" w]
  by simp

lemma compare_snd:
  "snd (case X of (Inl e, w2) \<Rightarrow> (Inl e, w2)
        | (Inr (leftHMAC, rightHMAC), w2) \<Rightarrow> (Inr (leftHMAC = rightHMAC), w2)) = snd X"
  by (simp split: prod.splits sum.splits)

lemma webTimingSafeEqual_snd:
  "snd (webTimingSafeEqual P left right opts w) = w
   \<or> snd (webTimingSafeEqual P left right opts w) = snd (resolve_secretKey P opts w)
   \<or> (\<exists>key w1 l r a. resolve_secretKey P opts w = (Inr key, w1)
        \<and> snd (webTimingSafeEqual P left right opts w) = snd (promise_all_hmac P key l r a w1))"
proof (cases "resolve_secretKey P opts w")
  case (Pair rk w1)
  then show ?thesis
    by (auto simp: webTimingSafeEqual_def compare_snd split: sum.splits)
qed

subsection \<open>The properties that the spread copies\<close>

text \<open>
  The own properties of a string, of a typed array, of a number and of a key handle
  are named by decimal indices, so none of them is called \<^verbatim>\<open>keyLength\<close> or
  \<^verbatim>\<open>algorithm\<close>. Whenever the key algorithm passed validation and the key length is
  not an object with properties of its own, \<open>generateSecretKey\<close> therefore sees
  neither member and generates with its defaults.
\<close>

lemma digit_char_decimal_all: "\<forall>d \<in> set [0..<10]. decimal_digit (digit_char d)"
  by code_simp

lemma digit_char_decimal: "d < 10 \<Longrightarrow> decimal_digit (digit_char d)"
  using digit_char_decimal_all by simp

lemma number_toString_digits: "list_all decimal_digit (number_toString 10 n)"
proof (induction "10::nat" n rule: number_toString.induct)
  case (1 n)
  show ?case
  proof (cases "n < 10")
    case True
    then show ?thesis by (simp add: number_toString.simps [of 10 n] digit_char_decimal)
  next
    case False
    with 1 have "list_all decimal_digit (number_toString 10 (n div 10))" by simp
    with False show ?thesis by (simp add: number_toString.simps [of 10 n] digit_char_decimal)
  qed
qed

lemma index_props_names:
  assumes "name \<in> fst ` set (index_props vs)"
  shows "list_all decimal_digit name"
  using assms number_toString_digits by (auto simp: index_props_def)

lemma get_prop_absent: "name \<notin> fst ` set ps \<Longrightarrow> get_prop ps name = Undefined"
  by (simp add: get_prop_def map_of_eq_None_iff [THEN iffD2])

lemma own_props_names:
  assumes "\<forall>c ps. v \<noteq> Obj c ps" and "name \<in> fst ` set (own_props v)"
  shows "list_all decimal_digit name"
  using assms by (cases v) (simp_all add: index_props_names)

lemma validated_own_props_names:
  assumes "validateAlgorithm v = Inr ()" and "name \<in> fst ` set (own_props v)"
  shows "list_all decimal_digit name"
proof -
  from validateAlgorithm_Str [OF assms(1)] have "\<forall>c ps. v \<noteq> Obj c ps" by (cases v) simp_all
  then show ?thesis using assms(2) by (rule own_props_names)
qed

lemma generated_key_options_names:
  assumes "\<not> truthy (keyAlgorithm opts) \<or> validateAlgorithm (keyAlgorithm opts) = Inr ()"
      and "\<forall>c ps. keyLength opts \<noteq> Obj c ps"
      and "name \<in> fst ` set (generated_key_options opts)"
  shows "list_all decimal_digit name"
proof -
  from assms(3) have "(truthy (keyAlgorithm opts) \<and> name \<in> fst ` set (own_props (keyAlgorithm opts)))
      \<or> name \<in> fst ` set (own_props (keyLength opts))"
    by (auto simp: generated_key_options_def split: if_splits)
  then show ?thesis
  proof
    assume "truthy (keyAlgorithm opts) \<and> name \<in> fst ` set (own_props (keyAlgorithm opts))"
    with assms(1) show ?thesis using validated_own_props_names by blast
  next
    assume "name \<in> fst ` set (own_props (keyLength opts))"
    with assms(2) show ?thesis by (rule own_props_names)
  qed
qed

lemma generated_key_is_default:
  assumes "\<not> truthy (keyAlgorithm opts) \<or> validateAlgorithm (keyAlgorithm opts) = Inr ()"
      and "\<forall>c ps. keyLength opts \<noteq> Obj c ps"
  shows "generateSecretKey P (generated_key_options opts) w =
           subtle_generateKey P (Str ''SHA-256'') (Some (Bits 512)) True [''sign''] w"
proof -
  have "\<not> list_all decimal_digit ''keyLength''" by (simp add: decimal_digit_def)
  with generated_key_options_names [OF assms]
  have 1: "get_prop (generated_key_options opts) ''keyLength'' = Undefined"
    by (intro get_prop_absent) blast
  have "\<not> list_all decimal_digit ''algorithm''" by (simp add: decimal_digit_def)
  with generated_key_options_names [OF assms]
  have 2: "get_prop (generated_key_options opts) ''algorithm'' = Undefined"
    by (intro get_prop_absent) blast
  show ?thesis
    by (simp add: generateSecretKey_def 1 2 or_default_def validateAlgorithm_def
        array_includes_def allowedAlgorithms_def)
qed

subsection \<open>The comparison after the key is resolved\<close>

lemma validate_Uint8Array: "validateValueOrConvertToUint8Array (Uint8Array m) = Inr m"
  by (simp add: validateValueOrConvertToUint8Array_def)

lemma webTimingSafeEqual_after_key:
  assumes "\<not> truthy (keyAlgorithm opts) \<or> validateAlgorithm (keyAlgorithm opts) = Inr ()"
      and "\<not> truthy (hmacAlgorithm opts) \<or> validateAlgorithm (hmacAlgorithm opts) = Inr ()"
      and "resolve_secretKey P opts w = (Inr key, w1)"
      and "validateValueOrConvertToUint8Array left = Inr l"
      and "validateValueOrConvertToUint8Array right = Inr r"
      and "length l = length r" and "l \<noteq> []"
  shows "webTimingSafeEqual P left right opts w =
           (case promise_all_hmac P key (Uint8Array l) (Uint8Array r)
                   (if truthy (hmacAlgorithm opts) then hmacAlgorithm opts else Undefined) w1 of
              (Inl e, w2) \<Rightarrow> (Inl e, w2)
            | (Inr (leftHMAC, rightHMAC), w2) \<Rightarrow> (Inr (leftHMAC = rightHMAC), w2))"
  using assms by (auto simp: webTimingSafeEqual_def)

lemma promise_all_hmac_Inr:
  assumes "promise_all_hmac P key (Uint8Array l) (Uint8Array r) a w = (Inr (hl, hr), w')"
  shows "\<exists>k1 k2 pre. calls w' = calls w @ pre @ [SignCall k1 l, SignCall k2 r]
           \<and> (\<forall>ev \<in> set pre. is_importKey ev)
           \<and> (constructor_name key = Some ''CryptoKey'' \<longrightarrow> pre = [] \<and> k1 = key \<and> k2 = key)"
proof -
  let ?L = "Uint8Array l" and ?R = "Uint8Array r"
  obtain pl w1 where p1: "hmac_prepare P key ?L a w = (pl, w1)" by (cases "hmac_prepare P key ?L a w")
  obtain pr w2 where p2: "hmac_prepare P key ?R a w1 = (pr, w2)" by (cases "hmac_prepare P key ?R a w1")
  obtain sl w3 where s1: "hmac_sign P pl w2 = (sl, w3)" by (cases "hmac_sign P pl w2")
  obtain sr w4 where s2: "hmac_sign P pr w3 = (sr, w4)" by (cases "hmac_sign P pr w3")
  from assms p1 p2 s1 s2 obtain x y where
    r: "pl = Inr x" "pr = Inr y" "sl = Inr hl" "sr = Inr hr" "w' = w4"
    by (auto simp: promise_all_hmac_def split: sum.splits)
  obtain k1 m1 where x: "x = (k1, m1)" by (cases x)
  obtain k2 m2 where y: "y = (k2, m2)" by (cases y)
  from hmac_prepare_Inr [OF p1 [unfolded r x]]
  have m1: "m1 = l" and c1: "(constructor_name key = Some ''CryptoKey'' \<and> k1 = key \<and> w1 = w)
      \<or> (constructor_name key \<noteq> Some ''CryptoKey'' \<and> (\<exists>raw k.
            subtle_importKey P raw (or_default a (Str ''SHA-256'')) False [''sign''] w = (Inr k, w1)))"
    by (auto simp: validate_Uint8Array)
  from hmac_prepare_Inr [OF p2 [unfolded r y]]
  have m2: "m2 = r" and c2: "(constructor_name key = Some ''CryptoKey'' \<and> k2 = key \<and> w2 = w1)
      \<or> (constructor_name key \<noteq> Some ''CryptoKey'' \<and> (\<exists>raw k.
            subtle_importKey P raw (or_default a (Str ''SHA-256'')) False [''sign''] w1 = (Inr k, w2)))"
    by (auto simp: validate_Uint8Array)
  from s1 r x m1 have e3: "calls w3 = calls w2 @ [SignCall k1 l]"
    by (auto simp: hmac_sign_Inr)
  from s2 r y m2 have e4: "calls w4 = calls w3 @ [SignCall k2 r]"
    by (auto simp: hmac_sign_Inr)
  show ?thesis
  proof (cases "constructor_name key = Some ''CryptoKey''")
    case True
    with c1 c2 have "k1 = key" "k2 = key" "w2 = w" by auto
    with e3 e4 r(5) True have "calls w' = calls w @ [] @ [SignCall k1 l, SignCall k2 r]
        \<and> (\<forall>ev \<in> set []. is_importKey ev)
        \<and> (constructor_name key = Some ''CryptoKey'' \<longrightarrow> [] = ([] :: event list) \<and> k1 = key \<and> k2 = key)"
      by simp
    then show ?thesis by (intro exI)
  next
    case False
    with c1 obtain raw1 i1 where
      "subtle_importKey P raw1 (or_default a (Str ''SHA-256'')) False [''sign''] w = (Inr i1, w1)"
      by auto
    then have d1: "calls w1 = calls w @ [ImportKeyCall raw1 (or_default a (Str ''SHA-256'')) False [''sign'']]"
      by (auto simp: subtle_importKey_eq)
    from False c2 obtain raw2 i2 where
      "subtle_importKey P raw2 (or_default a (Str ''SHA-256'')) False [''sign''] w1 = (Inr i2, w2)"
      by auto
    then have d2: "calls w2 = calls w1 @ [ImportKeyCall raw2 (or_default a (Str ''SHA-256'')) False [''sign'']]"
      by (auto simp: subtle_importKey_eq)
    let ?pre = "[ImportKeyCall raw1 (or_default a (Str ''SHA-256'')) False [''sign''],
                 ImportKeyCall raw2 (or_default a (Str ''SHA-256'')) False [''sign'']]"
    from d1 d2 e3 e4 r(5) False have "calls w' = calls w @ ?pre @ [SignCall k1 l, SignCall k2 r]
        \<and> (\<forall>ev \<in> set ?pre. is_importKey ev)
        \<and> (constructor_name key = Some ''CryptoKey'' \<longrightarrow> ?pre = [] \<and> k1 = key \<and> k2 = key)"
      by simp
    then show ?thesis by (intro exI)
  qed
qed

lemma resolve_secretKey_default:
  assumes "\<not> truthy (keyAlgorithm opts) \<or> validateAlgorithm (keyAlgorithm opts) = Inr ()"
      and "\<forall>c ps. keyLength opts \<noteq> Obj c ps"
      and "\<not> truthy (secretKey opts)"
  shows "resolve_secretKey P opts w =
           ((case fst (prov_generateKey P (Str ''SHA-256'') (Some (Bits 512)) True [''sign'']
                         (pstate w)) of
               Inl e \<Rightarrow> Inl e
             | Inr k \<Rightarrow> Inr (CryptoKey k)),
            \<lparr>calls = calls w @ [GenerateKeyCall (Str ''SHA-256'') (Some (Bits 512)) True [''sign'']],
             pstate = snd (prov_generateKey P (Str ''SHA-256'') (Some (Bits 512)) True [''sign'']
                         (pstate w))\<rparr>)"
  using assms(3)
  by (simp add: resolve_secretKey_def generated_key_is_default [OF assms(1,2)]
      subtle_generateKey_eq split: sum.splits)

lemma webTimingSafeEqual_snd_valid:
  assumes "\<not> truthy (keyAlgorithm opts) \<or> validateAlgorithm (keyAlgorithm opts) = Inr ()"
      and "\<not> truthy (hmacAlgorithm opts) \<or> validateAlgorithm (hmacAlgorithm opts) = Inr ()"
  shows "snd (webTimingSafeEqual P left right opts w) = snd (resolve_secretKey P opts w)
   \<or> (\<exists>key w1 l r a. resolve_secretKey P opts w = (Inr key, w1)
        \<and> snd (webTimingSafeEqual P left right opts w) = snd (promise_all_hmac P key l r a w1))"
proof (cases "resolve_secretKey P opts w")
  case (Pair rk w1)
  with assms show ?thesis
    by (auto simp: webTimingSafeEqual_def compare_snd split: sum.splits)
qed

lemma webTimingSafeEqual_resolved:
  assumes a1: "\<not> truthy (keyAlgorithm opts) \<or> validateAlgorithm (keyAlgorithm opts) = Inr ()"
      and a2: "\<not> truthy (hmacAlgorithm opts) \<or> validateAlgorithm (hmacAlgorithm opts) = Inr ()"
      and res: "resolve_secretKey P opts w = (Inr key, w1)"
      and ha: "hmacAlgorithm opts = ha"
  shows "webTimingSafeEqual P left right opts w =
     (case validateValueOrConvertToUint8Array left of
        Inl e \<Rightarrow> (Inl e, w1)
      | Inr leftUint8Array \<Rightarrow>
     (case validateValueOrConvertToUint8Array right of
        Inl e \<Rightarrow> (Inl e, w1)
      | Inr rightUint8Array \<Rightarrow>
        (if length leftUint8Array \<noteq> length rightUint8Array \<or> length leftUint8Array = 0
         then (Inr False, w1)
         else
           (case promise_all_hmac P key (Uint8Array leftUint8Array) (Uint8Array rightUint8Array)
                   (if truthy ha then ha else Undefined) w1 of
              (Inl e, w2) \<Rightarrow> (Inl e, w2)
            | (Inr (leftHMAC, rightHMAC), w2) \<Rightarrow> (Inr (leftHMAC = rightHMAC), w2)))))"
proof -
  note a2' = a2 [unfolded ha]
  show ?thesis
    unfolding webTimingSafeEqual_def ha using a1 a2' res by auto
qed

lemma webTimingSafeEqual_generated:
  assumes a1: "\<not> truthy (keyAlgorithm opts) \<or> validateAlgorithm (keyAlgorithm opts) = Inr ()"
      and a2: "\<not> truthy (hmacAlgorithm opts) \<or> validateAlgorithm (hmacAlgorithm opts) = Inr ()"
      and f: "\<not> truthy (secretKey opts)"
  shows "webTimingSafeEqual P left right opts w =
           (case generateSecretKey P (generated_key_options opts) w of
              (Inl e, w') \<Rightarrow> (Inl e, w')
            | (Inr k, w') \<Rightarrow> webTimingSafeEqual P left right (opts\<lparr>secretKey := CryptoKey k\<rparr>) w')"
proof (cases "generateSecretKey P (generated_key_options opts) w")
  case (Pair g w')
  show ?thesis
  proof (cases g)
    case (Inl e)
    with Pair a1 a2 f show ?thesis
      by (auto simp: webTimingSafeEqual_def resolve_secretKey_def)
  next
    case (Inr k)
    let ?o = "opts\<lparr>secretKey := CryptoKey k\<rparr>"
    have r1: "resolve_secretKey P opts w = (Inr (CryptoKey k), w')"
      using Pair Inr f by (simp add: resolve_secretKey_def)
    have r2: "resolve_secretKey P ?o w' = (Inr (CryptoKey k), w')"
      by (simp add: resolve_secretKey_def)
    from a1 have b1: "\<not> truthy (keyAlgorithm ?o) \<or> validateAlgorithm (keyAlgorithm ?o) = Inr ()"
      by simp
    from a2 have b2: "\<not> truthy (hmacAlgorithm ?o) \<or> validateAlgorithm (hmacAlgorithm ?o) = Inr ()"
      by simp
    have h: "hmacAlgorithm ?o = hmacAlgorithm opts" by simp
    have "webTimingSafeEqual P left right opts w = webTimingSafeEqual P left right ?o w'"
      unfolding webTimingSafeEqual_resolved [OF a1 a2 r1 refl]
                webTimingSafeEqual_resolved [OF b1 b2 r2 h] ..
    then show ?thesis by (simp add: Pair Inr)
  qed
qed

lemma webTimingSafeEqual_generated_calls:
  assumes a1: "\<not> truthy (keyAlgorithm opts) \<or> validateAlgorithm (keyAlgorithm opts) = Inr ()"
      and a2: "\<not> truthy (hmacAlgorithm opts) \<or> validateAlgorithm (hmacAlgorithm opts) = Inr ()"
      and f: "\<not> truthy (secretKey opts)"
      and n: "\<forall>c ps. keyLength opts \<noteq> Obj c ps"
  shows "\<exists>evs. calls (snd (webTimingSafeEqual P left right opts w))
                 = calls w @ GenerateKeyCall (Str ''SHA-256'') (Some (Bits 512)) True [''sign''] # evs
           \<and> (\<forall>ev \<in> set evs. \<exists>k m. ev = SignCall (CryptoKey k) m
                  \<and> fst (prov_generateKey P (Str ''SHA-256'') (Some (Bits 512)) True [''sign'']
                           (pstate w)) = Inr k)"
proof -
  let ?G = "GenerateKeyCall (Str ''SHA-256'') (Some (Bits 512)) True [''sign'']"
  let ?g = "fst (prov_generateKey P (Str ''SHA-256'') (Some (Bits 512)) True [''sign''] (pstate w))"
  let ?R = "snd (webTimingSafeEqual P left right opts w)"
  note rd = resolve_secretKey_default [OF a1 n f, of P w]
  from rd have c0: "calls (snd (resolve_secretKey P opts w)) = calls w @ [?G]" by simp
  from webTimingSafeEqual_snd_valid [OF a1 a2, of P left right w]
  show ?thesis
  proof (elim disjE exE conjE)
    assume "?R = snd (resolve_secretKey P opts w)"
    with c0 have "calls ?R = calls w @ ?G # []" by simp
    then show ?thesis by (intro exI [of _ "[]"]) simp
  next
    fix key w1 l r a
    assume res: "resolve_secretKey P opts w = (Inr key, w1)"
      and s: "?R = snd (promise_all_hmac P key l r a w1)"
    from res rd obtain k where k: "key = CryptoKey k" "?g = Inr k"
      by (auto split: sum.splits)
    from promise_all_hmac_calls_named [of key P l r a w1] k obtain e1 where
      e1: "calls (snd (promise_all_hmac P key l r a w1)) = calls w1 @ e1"
          "\<forall>ev \<in> set e1. \<exists>m. ev = SignCall key m" by auto
    from res c0 have "calls w1 = calls w @ [?G]" by simp
    with s e1 have "calls ?R = calls w @ ?G # e1" by simp
    moreover have "\<forall>ev \<in> set e1. \<exists>k m. ev = SignCall (CryptoKey k) m \<and> ?g = Inr k"
      using e1(2) k by auto
    ultimately show ?thesis by blast
  qed
qed

lemma hmac_prepare_bytes_fail:
  assumes det: "deterministic_signing P"
      and "fst (hmac_prepare P key (Uint8Array l) a w) = Inl e"
  shows "fst (hmac_prepare P key (Uint8Array r) a w') = Inl e"
proof -
  from det have "\<And>raw h. fst (prov_importKey P raw h False [''sign''] (pstate w'))
      = fst (prov_importKey P raw h False [''sign''] (pstate w))"
    unfolding deterministic_signing_def by blast
  with assms(2) show ?thesis
    by (auto simp: hmac_prepare_fst validate_Uint8Array split: sum.splits if_splits)
qed

lemma promise_all_hmac_fst:
  "fst (promise_all_hmac P key l r a w) =
     (case fst (hmac_prepare P key l a w) of
        Inl e \<Rightarrow> Inl e
      | Inr x \<Rightarrow>
         (case fst (hmac_prepare P key r a (snd (hmac_prepare P key l a w))) of
            Inl e \<Rightarrow> Inl e
          | Inr y \<Rightarrow>
             (case fst (hmac_sign P (fst (hmac_prepare P key l a w))
                         (snd (hmac_prepare P key r a (snd (hmac_prepare P key l a w))))) of
                Inl e \<Rightarrow> Inl e
              | Inr leftHMAC \<Rightarrow>
                 (case fst (hmac_sign P
                             (fst (hmac_prepare P key r a (snd (hmac_prepare P key l a w))))
                             (snd (hmac_sign P (fst (hmac_prepare P key l a w))
                                (snd (hmac_prepare P key r a (snd (hmac_prepare P key l a w))))))) of
                    Inl e \<Rightarrow> Inl e
                  | Inr rightHMAC \<Rightarrow> Inr (leftHMAC, rightHMAC)))))"
proof -
  obtain pl w1 where p1: "hmac_prepare P key l a w = (pl, w1)"
    by (cases "hmac_prepare P key l a w")
  obtain pr w2 where p2: "hmac_prepare P key r a w1 = (pr, w2)"
    by (cases "hmac_prepare P key r a w1")
  obtain sl w3 where s1: "hmac_sign P pl w2 = (sl, w3)" by (cases "hmac_sign P pl w2")
  obtain sr w4 where s2: "hmac_sign P pr w3 = (sr, w4)" by (cases "hmac_sign P pr w3")
  show ?thesis
    by (simp add: promise_all_hmac_def p1 p2 s1 s2 split: sum.splits)
qed

lemma promise_all_hmac_det:
  assumes det: "deterministic_signing P"
  shows "fst (promise_all_hmac P key (Uint8Array l) (Uint8Array r) a w) =
           (case fst (hmac P key (Uint8Array l) a w) of
              Inl e \<Rightarrow> Inl e
            | Inr leftHMAC \<Rightarrow>
               (case fst (hmac P key (Uint8Array r) a w) of
                  Inl e \<Rightarrow> Inl e
                | Inr rightHMAC \<Rightarrow> Inr (leftHMAC, rightHMAC)))"
proof -
  let ?L = "Uint8Array l" and ?R = "Uint8Array r"
  let ?pl = "fst (hmac_prepare P key ?L a w)"
  let ?w1 = "snd (hmac_prepare P key ?L a w)"
  let ?pr = "fst (hmac_prepare P key ?R a ?w1)"
  let ?w2 = "snd (hmac_prepare P key ?R a ?w1)"
  let ?sl = "fst (hmac_sign P ?pl ?w2)"
  let ?w3 = "snd (hmac_sign P ?pl ?w2)"
  let ?sr = "fst (hmac_sign P ?pr ?w3)"
  have hl: "fst (hmac P key ?L a w) = ?sl"
    unfolding hmac_fst by (rule hmac_sign_det [OF det])
  have pr: "fst (hmac_prepare P key ?R a w) = ?pr"
    by (rule hmac_prepare_det [OF det])
  have hr: "fst (hmac P key ?R a w) = ?sr"
    unfolding hmac_fst pr by (rule hmac_sign_det [OF det])
  show ?thesis
  proof (cases ?pl)
    case (Inl e)
    then have "?sl = Inl e" by (simp add: hmac_sign_Inl)
    with Inl show ?thesis unfolding promise_all_hmac_fst hl hr by simp
  next
    case (Inr x)
    show ?thesis
    proof (cases ?pr)
      case (Inl e)
      from hmac_prepare_bytes_fail [OF det Inl, of l w] Inr show ?thesis by simp
    next
      case Inr' : (Inr y)
      from Inr Inr' show ?thesis unfolding promise_all_hmac_fst hl hr by simp
    qed
  qed
qed

lemma webTimingSafeEqual_double_hmac:
  assumes det: "deterministic_signing P"
      and a1: "\<not> truthy (keyAlgorithm opts) \<or> validateAlgorithm (keyAlgorithm opts) = Inr ()"
      and a2: "\<not> truthy (hmacAlgorithm opts) \<or> validateAlgorithm (hmacAlgorithm opts) = Inr ()"
      and res: "resolve_secretKey P opts w = (Inr key, w1)"
      and vl: "validateValueOrConvertToUint8Array left = Inr l"
      and vr: "validateValueOrConvertToUint8Array right = Inr r"
      and len: "length l = length r" and ne: "l \<noteq> []"
  shows "fst (webTimingSafeEqual P left right opts w) =
           (case fst (hmac P key (Uint8Array l)
                        (if truthy (hmacAlgorithm opts) then hmacAlgorithm opts else Undefined) w1) of
              Inl e \<Rightarrow> Inl e
            | Inr leftHMAC \<Rightarrow>
               (case fst (hmac P key (Uint8Array r)
                            (if truthy (hmacAlgorithm opts) then hmacAlgorithm opts else Undefined)
                            w1) of
                  Inl e \<Rightarrow> Inl e
                | Inr rightHMAC \<Rightarrow> Inr (leftHMAC = rightHMAC)))"
proof -
  let ?a = "if truthy (hmacAlgorithm opts) then hmacAlgorithm opts else Undefined"
  have "fst (webTimingSafeEqual P left right opts w) =
          (case fst (promise_all_hmac P key (Uint8Array l) (Uint8Array r) ?a w1) of
             Inl e \<Rightarrow> Inl e
           | Inr (leftHMAC, rightHMAC) \<Rightarrow> Inr (leftHMAC = rightHMAC))"
    unfolding webTimingSafeEqual_after_key [OF a1 a2 res vl vr len ne]
    by (simp split: prod.splits sum.splits)
  then show ?thesis
    unfolding promise_all_hmac_det [OF det] by (simp split: sum.splits)
qed

subsection \<open>The concrete provider\<close>

lemma model_importKey_fst:
  "fst (model_importKey raw h x u p) = fst (model_importKey raw h x u p')"
  by (cases h) simp_all

lemma model_sign_fst: "fst (model_sign k m p) = fst (model_sign k m p')"
  by (cases k) simp_all

lemma model_provider_deterministic: "deterministic_signing model_provider"
  unfolding deterministic_signing_def model_provider_def
  using model_importKey_fst model_sign_fst by simp

lemma model_provider_digest_sized: "digest_sized model_provider"
proof (unfold digest_sized_def, intro conjI allI impI)
  fix raw h x u p k p'
  assume "prov_importKey model_provider raw (Str h) x u p = (Inr k, p')"
  then show "key_hash k = h"
    by (auto simp: model_provider_def split: if_splits)
next
  fix k m p s p'
  assume "prov_sign model_provider (CryptoKey k) m p = (Inr s, p')"
  then show "length s = digest_size (key_hash k)"
    by (auto simp: model_provider_def model_mac_def split: if_splits)
qed

lemma resolve_model_default:
  "resolve_secretKey model_provider no_options initial_world
     = (Inr (CryptoKey generated_key), after_generation)"
  by code_simp

section \<open>The claims\<close>

subsection \<open>C1: the options of the generated key\<close>

text \<open>
  C1 says that, when no secret key is supplied, the key is generated with the
  caller's \<^verbatim>\<open>keyLength\<close> and \<^verbatim>\<open>keyAlgorithm\<close>. The code spreads the two option values
  themselves into the argument of \<open>generateSecretKey\<close> instead of passing them as the
  members \<^verbatim>\<open>keyLength\<close> and \<^verbatim>\<open>algorithm\<close>. For the call
  \<^verbatim>\<open>webTimingSafeEqual("a", "a", {keyLength: 32, keyAlgorithm: "SHA-512"})\<close> the argument
  is \<^verbatim>\<open>{0: "S", 1: "H", ...}\<close>, and the key is generated with the defaults: with any
  provider the request is for SHA-256 and 512 bits, and on the concrete provider
  that request is the first provider call of the comparison.
\<close>

theorem generated_key_ignores_options:
  "generateSecretKey P
     (generated_key_options
        \<lparr>secretKey = Undefined, keyLength = Number 32, keyAlgorithm = Str ''SHA-512'',
         hmacAlgorithm = Undefined\<rparr>) w
     = subtle_generateKey P (Str ''SHA-256'') (Some (Bits 512)) True [''sign''] w
   \<and> take 1 (calls (snd (webTimingSafeEqual model_provider (Str ''a'') (Str ''a'')
        \<lparr>secretKey = Undefined, keyLength = Number 32, keyAlgorithm = Str ''SHA-512'',
         hmacAlgorithm = Undefined\<rparr> initial_world)))
     = [GenerateKeyCall (Str ''SHA-256'') (Some (Bits 512)) True [''sign'']]"
proof
  show "generateSecretKey P
     (generated_key_options
        \<lparr>secretKey = Undefined, keyLength = Number 32, keyAlgorithm = Str ''SHA-512'',
         hmacAlgorithm = Undefined\<rparr>) w
     = subtle_generateKey P (Str ''SHA-256'') (Some (Bits 512)) True [''sign''] w"
    by (rule generated_key_is_default)
       (simp_all add: validateAlgorithm_def array_includes_def allowedAlgorithms_def)
  show "take 1 (calls (snd (webTimingSafeEqual model_provider (Str ''a'') (Str ''a'')
        \<lparr>secretKey = Undefined, keyLength = Number 32, keyAlgorithm = Str ''SHA-512'',
         hmacAlgorithm = Undefined\<rparr> initial_world)))
     = [GenerateKeyCall (Str ''SHA-256'') (Some (Bits 512)) True [''sign'']]"
    by code_simp
qed

text \<open>The same call on the concrete provider: a 64-byte key bound to SHA-256.\<close>

theorem generated_key_ignores_options_witness:
  "generateSecretKey model_provider
     (generated_key_options
        \<lparr>secretKey = Undefined, keyLength = Number 32, keyAlgorithm = Str ''SHA-512'',
         hmacAlgorithm = Undefined\<rparr>) initial_world
     = (Inr generated_key, after_generation)"
proof -
  have "subtle_generateKey model_provider (Str ''SHA-256'') (Some (Bits 512)) True [''sign'']
          initial_world = (Inr generated_key, after_generation)"
    by code_simp
  with generated_key_ignores_options [of model_provider initial_world] show ?thesis by simp
qed

subsection \<open>C2: values that are neither text nor bytes\<close>




subsection \<open>C3: unequal lengths and empty values\<close>

text \<open>
  C3. Let each algorithm option be absent or supported, let the key be resolved
  (supplied, or generated successfully), and let left and right be text or bytes
  whose byte sequences differ in length, or of which one is empty. Then the
  comparison returns false in the world in which the key was resolved: no
  \<open>hmac\<close> is started, and the only provider call there can be is the \<^verbatim>\<open>generateKey\<close> of
  the key resolution.
\<close>

theorem unequal_length_returns_false:
  assumes "\<not> truthy (keyAlgorithm opts) \<or> validateAlgorithm (keyAlgorithm opts) = Inr ()"
      and "\<not> truthy (hmacAlgorithm opts) \<or> validateAlgorithm (hmacAlgorithm opts) = Inr ()"
      and "resolve_secretKey P opts w = (Inr key, w1)"
      and "validateValueOrConvertToUint8Array left = Inr l"
      and "validateValueOrConvertToUint8Array right = Inr r"
      and "length l \<noteq> length r \<or> l = [] \<or> r = []"
  shows "webTimingSafeEqual P left right opts w = (Inr False, w1)
         \<and> (\<exists>evs. calls w1 = calls w @ evs \<and> length evs \<le> 1 \<and> (\<forall>ev \<in> set evs. is_generateKey ev))"
proof
  from assms(6) have "length l \<noteq> length r \<or> length l = 0" by auto
  with assms(1-5) show "webTimingSafeEqual P left right opts w = (Inr False, w1)"
    by (auto simp: webTimingSafeEqual_def)
next
  from assms(3) have "w1 = snd (resolve_secretKey P opts w)" by simp
  then show "\<exists>evs. calls w1 = calls w @ evs \<and> length evs \<le> 1 \<and> (\<forall>ev \<in> set evs. is_generateKey ev)"
    using resolve_secretKey_calls [of P opts w] by simp
qed

text \<open>
  \<^verbatim>\<open>webTimingSafeEqual(Uint8Array [1,2,3], Uint8Array [1,2])\<close> with a generated key, and
  \<^verbatim>\<open>webTimingSafeEqual("", "", {secretKey: "k"})\<close>.
\<close>

theorem unequal_length_returns_false_witness:
  "webTimingSafeEqual model_provider (Uint8Array [1, 2, 3]) (Uint8Array [1, 2]) no_options
     initial_world = (Inr False, after_generation)
   \<and> webTimingSafeEqual model_provider (Str []) (Str []) (no_options\<lparr>secretKey := Str ''k''\<rparr>)
     initial_world = (Inr False, initial_world)"
proof -
  have d1: "\<not> truthy (keyAlgorithm no_options) \<or> validateAlgorithm (keyAlgorithm no_options) = Inr ()"
    by (simp add: no_options_def)
  have d2: "\<not> truthy (hmacAlgorithm no_options) \<or> validateAlgorithm (hmacAlgorithm no_options) = Inr ()"
    by (simp add: no_options_def)
  have l: "validateValueOrConvertToUint8Array (Uint8Array [1, 2, 3]) = Inr [1, 2, 3]"
    by (simp add: validateValueOrConvertToUint8Array_def)
  have r: "validateValueOrConvertToUint8Array (Uint8Array [1, 2]) = Inr [1, 2]"
    by (simp add: validateValueOrConvertToUint8Array_def)
  have m: "length [1, 2, 3 :: byte] \<noteq> length [1, 2 :: byte] \<or> [1, 2, 3 :: byte] = [] \<or> [1, 2 :: byte] = []"
    by simp
  from unequal_length_returns_false [OF d1 d2 resolve_model_default l r m]
  have 1: "webTimingSafeEqual model_provider (Uint8Array [1, 2, 3]) (Uint8Array [1, 2]) no_options
     initial_world = (Inr False, after_generation)"
    by (rule conjunct1)
  let ?o = "no_options\<lparr>secretKey := Str ''k''\<rparr>"
  have k1: "\<not> truthy (keyAlgorithm ?o) \<or> validateAlgorithm (keyAlgorithm ?o) = Inr ()"
    by (simp add: no_options_def)
  have k2: "\<not> truthy (hmacAlgorithm ?o) \<or> validateAlgorithm (hmacAlgorithm ?o) = Inr ()"
    by (simp add: no_options_def)
  have kr: "resolve_secretKey model_provider ?o initial_world = (Inr (Str ''k''), initial_world)"
    by (simp add: resolve_secretKey_def)
  have e: "validateValueOrConvertToUint8Array (Str []) = Inr []"
    by (simp add: validateValueOrConvertToUint8Array_def TextEncoder_encode_def)
  have z: "length ([] :: byte list) \<noteq> length ([] :: byte list) \<or> ([] :: byte list) = [] \<or> ([] :: byte list) = []"
    by simp
  from unequal_length_returns_false [OF k1 k2 kr e e z]
  have 2: "webTimingSafeEqual model_provider (Str []) (Str []) ?o initial_world
             = (Inr False, initial_world)"
    by (rule conjunct1)
  from 1 2 show ?thesis by (rule conjI)
qed

subsection \<open>C4: a value compared with itself\<close>

text \<open>
  C4. Let the provider sign deterministically, let each algorithm option be absent
  or supported, let the key be resolved, and let left and right be text or bytes
  with the same non-empty byte sequence \<open>a\<close>, of which the HMAC under the resolved key
  succeeds with the hex string \<open>h\<close>. Then the two \<open>hmac\<close> calls of the comparison, both
  under the resolved key, return \<open>h\<close> and \<open>h\<close>, and the comparison returns true in the
  world these two calls leave: after the key resolution the provider sees the key
  imports, if any, and then one \<^verbatim>\<open>sign\<close> of \<open>a\<close> for each side, with the resolved key
  itself when it is a key handle.
\<close>

theorem equal_inputs_compare_true:
  assumes det: "deterministic_signing P"
      and a1: "\<not> truthy (keyAlgorithm opts) \<or> validateAlgorithm (keyAlgorithm opts) = Inr ()"
      and a2: "\<not> truthy (hmacAlgorithm opts) \<or> validateAlgorithm (hmacAlgorithm opts) = Inr ()"
      and res: "resolve_secretKey P opts w = (Inr key, w1)"
      and vl: "validateValueOrConvertToUint8Array left = Inr a"
      and vr: "validateValueOrConvertToUint8Array right = Inr a"
      and ne: "a \<noteq> []"
      and ok: "fst (hmac P key (Uint8Array a)
                     (if truthy (hmacAlgorithm opts) then hmacAlgorithm opts else Undefined) w1) = Inr h"
  shows "\<exists>w2 k1 k2 pre.
           promise_all_hmac P key (Uint8Array a) (Uint8Array a)
             (if truthy (hmacAlgorithm opts) then hmacAlgorithm opts else Undefined) w1
             = (Inr (h, h), w2)
         \<and> webTimingSafeEqual P left right opts w = (Inr True, w2)
         \<and> calls w2 = calls w1 @ pre @ [SignCall k1 a, SignCall k2 a]
         \<and> (\<forall>ev \<in> set pre. is_importKey ev)
         \<and> (constructor_name key = Some ''CryptoKey'' \<longrightarrow> pre = [] \<and> k1 = key \<and> k2 = key)"
proof -
  let ?alg = "if truthy (hmacAlgorithm opts) then hmacAlgorithm opts else Undefined"
  let ?X = "Uint8Array a"
  obtain pl w2 where p1: "hmac_prepare P key ?X ?alg w1 = (pl, w2)" by (cases "hmac_prepare P key ?X ?alg w1")
  obtain pr w3 where p2: "hmac_prepare P key ?X ?alg w2 = (pr, w3)" by (cases "hmac_prepare P key ?X ?alg w2")
  obtain sl w4 where s1: "hmac_sign P pl w3 = (sl, w4)" by (cases "hmac_sign P pl w3")
  obtain sr w5 where s2: "hmac_sign P pr w4 = (sr, w5)" by (cases "hmac_sign P pr w4")
  from hmac_prepare_det [OF det, of key ?X ?alg w1 w2] p1 p2 have prpl: "pr = pl" by simp
  from ok p1 have "fst (hmac_sign P pl w2) = Inr h" by (simp add: hmac_fst)
  with hmac_sign_det [OF det, of pl w2 w3] hmac_sign_det [OF det, of pl w2 w4] s1 s2 prpl
  have sl: "sl = Inr h" and sr: "sr = Inr h" by simp_all
  from s1 sl obtain x where pl: "pl = Inr x" by (cases pl) (simp_all add: hmac_sign_Inl)
  from p1 p2 s1 s2 prpl pl sl sr
  have pa: "promise_all_hmac P key ?X ?X ?alg w1 = (Inr (h, h), w5)"
    by (simp add: promise_all_hmac_def)
  from webTimingSafeEqual_after_key [OF a1 a2 res vl vr refl ne] pa
  have w: "webTimingSafeEqual P left right opts w = (Inr True, w5)" by simp
  from promise_all_hmac_Inr [OF pa] obtain k1 k2 pre where
    "calls w5 = calls w1 @ pre @ [SignCall k1 a, SignCall k2 a]"
    "\<forall>ev \<in> set pre. is_importKey ev"
    "constructor_name key = Some ''CryptoKey'' \<longrightarrow> pre = [] \<and> k1 = key \<and> k2 = key"
    by blast
  with pa w show ?thesis by blast
qed

text \<open>
  \<^verbatim>\<open>webTimingSafeEqual("testString1", "testString1")\<close> with a generated key: true, after
  two signatures under that key.
\<close>

theorem equal_inputs_compare_true_witness:
  "deterministic_signing model_provider
   \<and> (\<exists>w2. webTimingSafeEqual model_provider (Str ''testString1'') (Str ''testString1'')
              no_options initial_world = (Inr True, w2)
          \<and> calls w2 = calls after_generation @
              [SignCall (CryptoKey generated_key) (TextEncoder_encode ''testString1''),
               SignCall (CryptoKey generated_key) (TextEncoder_encode ''testString1'')])"
proof -
  have d1: "\<not> truthy (keyAlgorithm no_options) \<or> validateAlgorithm (keyAlgorithm no_options) = Inr ()"
    by (simp add: no_options_def)
  have d2: "\<not> truthy (hmacAlgorithm no_options) \<or> validateAlgorithm (hmacAlgorithm no_options) = Inr ()"
    by (simp add: no_options_def)
  have v: "validateValueOrConvertToUint8Array (Str ''testString1'')
             = Inr (TextEncoder_encode ''testString1'')"
    by (simp add: validateValueOrConvertToUint8Array_def)
  have ne: "TextEncoder_encode ''testString1'' \<noteq> []"
    by (simp add: TextEncoder_encode_def utf8_char_def)
  have ok: "fst (hmac model_provider (CryptoKey generated_key)
                   (Uint8Array (TextEncoder_encode ''testString1''))
                   (if truthy (hmacAlgorithm no_options) then hmacAlgorithm no_options else Undefined)
                   after_generation)
              = Inr (hashHex (model_mac generated_key (TextEncoder_encode ''testString1'')))"
    by code_simp
  have c: "constructor_name (CryptoKey generated_key) = Some ''CryptoKey''" by simp
  from equal_inputs_compare_true [OF model_provider_deterministic d1 d2 resolve_model_default v v ne ok]
  obtain w2 k1 k2 pre where
    r: "webTimingSafeEqual model_provider (Str ''testString1'') (Str ''testString1'')
              no_options initial_world = (Inr True, w2)"
    and e: "calls w2 = calls after_generation @ pre @
              [SignCall k1 (TextEncoder_encode ''testString1''),
               SignCall k2 (TextEncoder_encode ''testString1'')]"
    and p: "constructor_name (CryptoKey generated_key) = Some ''CryptoKey'' \<longrightarrow>
              pre = [] \<and> k1 = CryptoKey generated_key \<and> k2 = CryptoKey generated_key"
    by (elim exE conjE)
  from p c have "pre = []" "k1 = CryptoKey generated_key" "k2 = CryptoKey generated_key"
    by simp_all
  with e have "calls w2 = calls after_generation @
              [SignCall (CryptoKey generated_key) (TextEncoder_encode ''testString1''),
               SignCall (CryptoKey generated_key) (TextEncoder_encode ''testString1'')]"
    by simp
  with r have "\<exists>w2. webTimingSafeEqual model_provider (Str ''testString1'') (Str ''testString1'')
              no_options initial_world = (Inr True, w2)
          \<and> calls w2 = calls after_generation @
              [SignCall (CryptoKey generated_key) (TextEncoder_encode ''testString1''),
               SignCall (CryptoKey generated_key) (TextEncoder_encode ''testString1'')]"
    by (intro exI [of _ w2] conjI)
  with model_provider_deterministic show ?thesis by (rule conjI)
qed

subsection \<open>C5: validateAlgorithm\<close>

text \<open>
  C5. \<open>validateAlgorithm\<close> succeeds exactly on the four primitive strings SHA-1,
  SHA-256, SHA-384 and SHA-512 and fails with \<open>InvalidAlgorithm\<close> on every other
  value. It is a function of its argument alone: it takes no provider and no world.
\<close>

theorem validateAlgorithm_iff:
  "(validateAlgorithm a = Inr ()
      \<longleftrightarrow> a \<in> {Str ''SHA-1'', Str ''SHA-256'', Str ''SHA-384'', Str ''SHA-512''})
   \<and> (validateAlgorithm a = Inl InvalidAlgorithm
      \<longleftrightarrow> a \<notin> {Str ''SHA-1'', Str ''SHA-256'', Str ''SHA-384'', Str ''SHA-512''})"
  by (simp add: validateAlgorithm_def array_includes_def allowedAlgorithms_def)

theorem validateAlgorithm_iff_witness:
  "validateAlgorithm (Str ''SHA-384'') = Inr ()
   \<and> validateAlgorithm (Str ''MD5'') = Inl InvalidAlgorithm
   \<and> validateAlgorithm (StringObject ''SHA-256'') = Inl InvalidAlgorithm"
  using validateAlgorithm_iff [of "Str ''SHA-384''"] validateAlgorithm_iff [of "Str ''MD5''"]
    validateAlgorithm_iff [of "StringObject ''SHA-256''"]
  by simp

subsection \<open>C6: generateSecretKey\<close>

text \<open>
  C6. \<open>generateSecretKey\<close> validates its algorithm (SHA-256 when none is given)
  before it calls the provider. With an unsupported algorithm it fails with
  \<open>InvalidAlgorithm\<close> and the world is unchanged. With a supported algorithm and a
  non-zero number \<open>n\<close> as key length it makes one \<^verbatim>\<open>generateKey\<close> call for that
  algorithm and \<open>n * 8\<close> bits, extractable and for signing, and returns what the
  provider returns.
\<close>

theorem generateSecretKey_validates_first:
  "(validateAlgorithm (or_default (get_prop opts ''algorithm'') (Str ''SHA-256'')) \<noteq> Inr ()
      \<longrightarrow> generateSecretKey P opts w = (Inl InvalidAlgorithm, w))
   \<and> (validateAlgorithm (or_default (get_prop opts ''algorithm'') (Str ''SHA-256'')) = Inr ()
      \<longrightarrow> (\<forall>n. or_default (get_prop opts ''keyLength'') (Number 64) = Number n \<and> n \<noteq> 0 \<longrightarrow>
             generateSecretKey P opts w =
               (fst (prov_generateKey P (or_default (get_prop opts ''algorithm'') (Str ''SHA-256''))
                       (Some (Bits (n * 8))) True [''sign''] (pstate w)),
                \<lparr>calls = calls w @
                   [GenerateKeyCall (or_default (get_prop opts ''algorithm'') (Str ''SHA-256''))
                      (Some (Bits (n * 8))) True [''sign'']],
                 pstate = snd (prov_generateKey P
                       (or_default (get_prop opts ''algorithm'') (Str ''SHA-256''))
                       (Some (Bits (n * 8))) True [''sign''] (pstate w))\<rparr>)))"
  by (auto simp: generateSecretKey_def Let_def subtle_generateKey_eq validateAlgorithm_def
      split: sum.splits)

text \<open>
  \<^verbatim>\<open>generateSecretKey({algorithm: "MD5"})\<close> and
  \<^verbatim>\<open>generateSecretKey({keyLength: 64, algorithm: "SHA-384"})\<close>.
\<close>

theorem generateSecretKey_validates_first_witness:
  "generateSecretKey model_provider [(''algorithm'', Str ''MD5'')] initial_world
     = (Inl InvalidAlgorithm, initial_world)
   \<and> generateSecretKey model_provider
       [(''keyLength'', Number 64), (''algorithm'', Str ''SHA-384'')] initial_world
     = (Inr \<lparr>key_material = map of_nat [0..<64], key_hash = ''SHA-384'',
              key_extractable = True, key_usages = [''sign'']\<rparr>,
        \<lparr>calls = [GenerateKeyCall (Str ''SHA-384'') (Some (Bits 512)) True [''sign'']],
         pstate = 64\<rparr>)"
proof -
  let ?o1 = "[(''algorithm'', Str ''MD5'')]"
  let ?o2 = "[(''keyLength'', Number 64), (''algorithm'', Str ''SHA-384'')]"
  have a1: "or_default (get_prop ?o1 ''algorithm'') (Str ''SHA-256'') = Str ''MD5''"
    by (simp add: get_prop_def or_default_def)
  have v1: "validateAlgorithm (or_default (get_prop ?o1 ''algorithm'') (Str ''SHA-256'')) \<noteq> Inr ()"
    unfolding a1 by (simp add: validateAlgorithm_def array_includes_def allowedAlgorithms_def)
  have 1: "generateSecretKey model_provider ?o1 initial_world = (Inl InvalidAlgorithm, initial_world)"
    by (rule generateSecretKey_validates_first [where opts = ?o1 and P = model_provider
          and w = initial_world, THEN conjunct1, THEN mp, OF v1])
  have a2: "or_default (get_prop ?o2 ''algorithm'') (Str ''SHA-256'') = Str ''SHA-384''"
    by (simp add: get_prop_def or_default_def)
  have v2: "validateAlgorithm (or_default (get_prop ?o2 ''algorithm'') (Str ''SHA-256'')) = Inr ()"
    unfolding a2 by (simp add: validateAlgorithm_def array_includes_def allowedAlgorithms_def)
  have l2: "or_default (get_prop ?o2 ''keyLength'') (Number 64) = Number 64 \<and> (64::int) \<noteq> 0"
    by (simp add: get_prop_def or_default_def)
  note g = generateSecretKey_validates_first [where opts = ?o2 and P = model_provider
          and w = initial_world, THEN conjunct2, THEN mp, OF v2, THEN spec, of 64, THEN mp, OF l2]
  have 2: "generateSecretKey model_provider ?o2 initial_world
     = (Inr \<lparr>key_material = map of_nat [0..<64], key_hash = ''SHA-384'',
              key_extractable = True, key_usages = [''sign'']\<rparr>,
        \<lparr>calls = [GenerateKeyCall (Str ''SHA-384'') (Some (Bits 512)) True [''sign'']],
         pstate = 64\<rparr>)"
    unfolding g a2
    by (simp add: model_provider_def initial_world_def fresh_key_def digest_size_def)
  from 1 2 show ?thesis by (rule conjI)
qed

subsection \<open>C7: the hex digest\<close>

text \<open>
  C7 says that the length of the digest depends on the algorithm argument alone,
  64 characters for SHA-256 and 128 for SHA-512, for every key. \<^verbatim>\<open>sign\<close> is not given
  the algorithm: a key handle is signed with as it is. For a key handle bound to
  SHA-256 and the algorithm argument SHA-512 the digest has 64 characters.
\<close>

theorem hmac_length_follows_key_hash:
  "map_sum id length
     (fst (hmac model_provider
        (CryptoKey \<lparr>key_material = [1, 2, 3], key_hash = ''SHA-256'',
                    key_extractable = False, key_usages = [''sign'']\<rparr>)
        (Str ''abc'') (Str ''SHA-512'') initial_world)) = Inr 64"
  by code_simp

text \<open>
  C7 as the code has it. Whenever \<open>hmac\<close> returns a string, its last provider call is
  a \<^verbatim>\<open>sign\<close>, and the string is the lowercase hexadecimal encoding of the signature
  bytes, two digits per byte, so twice as long as the signature. For a key whose
  constructor is named \<^verbatim>\<open>CryptoKey\<close> every supported algorithm argument gives this
  same result. With a provider whose signatures have the digest size of the hash
  the key is bound to, the length is twice the digest size of the key's hash for a
  key handle, and twice the digest size of the algorithm argument for a text or
  byte key; it never depends on the message.
\<close>

theorem hmac_hex_digest:
  assumes "hmac P key message algorithm w = (Inr h, w')"
  shows "(\<exists>cryptoKey m p s.
             calls w' \<noteq> [] \<and> last (calls w') = SignCall cryptoKey m
           \<and> prov_sign P cryptoKey m p = (Inr s, pstate w')
           \<and> h = concat (map (\<lambda>b. [''0123456789abcdef'' ! (unat b div 16),
                                     ''0123456789abcdef'' ! (unat b mod 16)]) s)
           \<and> length h = 2 * length s)
       \<and> (constructor_name key = Some ''CryptoKey'' \<longrightarrow>
            (\<forall>a. validateAlgorithm (or_default a (Str ''SHA-256'')) = Inr () \<longrightarrow>
                 hmac P key message a w = (Inr h, w')))
       \<and> (digest_sized P \<longrightarrow>
            (\<forall>k. key = CryptoKey k \<longrightarrow> length h = 2 * digest_size (key_hash k))
          \<and> (constructor_name key \<noteq> Some ''CryptoKey'' \<longrightarrow>
               length h = 2 * digest_size (string_data (or_default algorithm (Str ''SHA-256'')))))"
proof -
  from hmac_Inr [OF assms] obtain ck m w1 s where
    p: "hmac_prepare P key message algorithm w = (Inr (ck, m), w1)"
    and sg: "prov_sign P ck m (pstate w1) = (Inr s, pstate w')"
    and c: "calls w' = calls w1 @ [SignCall ck m]" and h: "h = hashHex s"
    by blast
  have len: "length h = 2 * length s" by (simp add: h hashHex_length)
  have first: "\<exists>cryptoKey m p s.
             calls w' \<noteq> [] \<and> last (calls w') = SignCall cryptoKey m
           \<and> prov_sign P cryptoKey m p = (Inr s, pstate w')
           \<and> h = concat (map (\<lambda>b. [''0123456789abcdef'' ! (unat b div 16),
                                     ''0123456789abcdef'' ! (unat b mod 16)]) s)
           \<and> length h = 2 * length s"
    using sg c len h hashHex_eq [of s]
    by (intro exI [of _ ck] exI [of _ m] exI [of _ "pstate w1"] exI [of _ s]) simp
  have same: "hmac P key message a w = (Inr h, w')"
    if n: "constructor_name key = Some ''CryptoKey''"
      and a: "validateAlgorithm (or_default a (Str ''SHA-256'')) = Inr ()" for a
  proof -
    from hmac_prepare_Inr [OF p]
    have va: "validateAlgorithm (or_default algorithm (Str ''SHA-256'')) = Inr ()"
      and vm: "validateValueOrConvertToUint8Array message = Inr m"
      by simp_all
    from hmac_named_key [OF a vm n, of P w] hmac_named_key [OF va vm n, of P w] assms
    show ?thesis by simp
  qed
  have handle: "length h = 2 * digest_size (key_hash k)"
    if d: "digest_sized P" and k: "key = CryptoKey k" for k
  proof -
    from hmac_prepare_Inr [OF p] k have "ck = CryptoKey k" by auto
    with sg d have "length s = digest_size (key_hash k)" unfolding digest_sized_def by blast
    with len show ?thesis by simp
  qed
  have raw: "length h = 2 * digest_size (string_data (or_default algorithm (Str ''SHA-256'')))"
    if d: "digest_sized P" and n: "constructor_name key \<noteq> Some ''CryptoKey''"
  proof -
    let ?a = "or_default algorithm (Str ''SHA-256'')"
    from hmac_prepare_Inr [OF p] n obtain raw k where
      va: "validateAlgorithm ?a = Inr ()" and ck: "ck = CryptoKey k"
      and im: "subtle_importKey P raw ?a False [''sign''] w = (Inr k, w1)"
      by auto
    from validateAlgorithm_Str [OF va] have a: "?a = Str (string_data ?a)" .
    from im have "prov_importKey P raw ?a False [''sign''] (pstate w) = (Inr k, pstate w1)"
      by (auto simp: subtle_importKey_eq prod_eq_iff)
    with a have "prov_importKey P raw (Str (string_data ?a)) False [''sign''] (pstate w)
                   = (Inr k, pstate w1)"
      by simp
    with d have kh: "key_hash k = string_data ?a" unfolding digest_sized_def by blast
    from sg ck d have "length s = digest_size (key_hash k)" unfolding digest_sized_def by blast
    with kh len show ?thesis by simp
  qed
  from first same handle raw show ?thesis by blast
qed

text \<open>\<^verbatim>\<open>hmac("k", "abc", "SHA-512")\<close>: the key is imported for SHA-512, 128 characters.\<close>

theorem hmac_hex_digest_witness:
  "digest_sized model_provider
   \<and> hmac model_provider (Str ''k'') (Str ''abc'') (Str ''SHA-512'') initial_world
       = (Inr (hashHex (model_mac imported_key (TextEncoder_encode ''abc''))),
          \<lparr>calls = [ImportKeyCall (TextEncoder_encode ''k'') (Str ''SHA-512'') False [''sign''],
                    SignCall (CryptoKey imported_key) (TextEncoder_encode ''abc'')],
           pstate = 0\<rparr>)
   \<and> length (hashHex (model_mac imported_key (TextEncoder_encode ''abc''))) = 128"
proof -
  have h: "hmac model_provider (Str ''k'') (Str ''abc'') (Str ''SHA-512'') initial_world
       = (Inr (hashHex (model_mac imported_key (TextEncoder_encode ''abc''))),
          \<lparr>calls = [ImportKeyCall (TextEncoder_encode ''k'') (Str ''SHA-512'') False [''sign''],
                    SignCall (CryptoKey imported_key) (TextEncoder_encode ''abc'')],
           pstate = 0\<rparr>)"
    by code_simp
  have n: "constructor_name (Str ''k'') \<noteq> Some ''CryptoKey''" by simp
  note l = hmac_hex_digest [OF h, THEN conjunct2, THEN conjunct2, THEN mp,
      OF model_provider_digest_sized,
      THEN conjunct2, THEN mp, OF n]
  have "length (hashHex (model_mac imported_key (TextEncoder_encode ''abc''))) = 128"
    unfolding l by (simp add: or_default_def digest_size_def)
  with model_provider_digest_sized h show ?thesis by (intro conjI)
qed

subsection \<open>C8: hmac is deterministic\<close>

text \<open>
  C8. With a provider that signs deterministically, \<open>hmac\<close> returns the same result
  (the same hex string, or the same error) for the same key, message and algorithm,
  in whatever world it is called.
\<close>

theorem hmac_deterministic:
  assumes "deterministic_signing P"
  shows "fst (hmac P key message algorithm w) = fst (hmac P key message algorithm w')"
  unfolding hmac_fst
  using hmac_prepare_det [OF assms, of key message algorithm w w']
        hmac_sign_det [OF assms]
  by metis

theorem hmac_deterministic_witness:
  "deterministic_signing model_provider
   \<and> fst (hmac model_provider (Str ''k'') (Str ''abc'') (Str ''SHA-256'') initial_world)
     = fst (hmac model_provider (Str ''k'') (Str ''abc'') (Str ''SHA-256'') after_generation)"
  using model_provider_deterministic
    hmac_deterministic [OF model_provider_deterministic, of "Str ''k''" "Str ''abc''"
      "Str ''SHA-256''" initial_world after_generation]
  by (rule conjI)

subsection \<open>C9: a falsy secret key\<close>

text \<open>
  C9. A falsy \<^verbatim>\<open>secretKey\<close>, the empty string for instance, is treated as absent: the
  comparison is the one without that option. With algorithm options that are
  absent or supported, it runs \<open>generateSecretKey\<close>, fails with its error if that
  fails, and otherwise is the comparison with the generated key handle supplied as
  \<^verbatim>\<open>secretKey\<close>, in the world the key generation leaves. When \<^verbatim>\<open>keyLength\<close> is not an
  object, its first provider call is the \<^verbatim>\<open>generateKey\<close> for SHA-256 and 512 bits, and
  every later call is a \<^verbatim>\<open>sign\<close> under the key that call returned: the supplied value
  is never imported or signed with. A truthy \<^verbatim>\<open>secretKey\<close> is the key given to both
  \<open>hmac\<close> calls of the comparison, in the world of the call, and no key is generated;
  with a provider that signs deterministically, the result for values of equal
  non-zero length is the equality of \<open>hmac\<close> of left and \<open>hmac\<close> of right under that key.
\<close>

theorem falsy_secretKey_treated_as_absent:
  "(\<not> truthy (secretKey opts) \<longrightarrow>
       webTimingSafeEqual P left right opts w
         = webTimingSafeEqual P left right (opts\<lparr>secretKey := Undefined\<rparr>) w)
   \<and> ((\<not> truthy (keyAlgorithm opts) \<or> validateAlgorithm (keyAlgorithm opts) = Inr ())
      \<and> (\<not> truthy (hmacAlgorithm opts) \<or> validateAlgorithm (hmacAlgorithm opts) = Inr ())
      \<longrightarrow>
        (\<not> truthy (secretKey opts) \<longrightarrow>
           webTimingSafeEqual P left right opts w =
             (case generateSecretKey P (generated_key_options opts) w of
                (Inl e, w') \<Rightarrow> (Inl e, w')
              | (Inr k, w') \<Rightarrow>
                  webTimingSafeEqual P left right (opts\<lparr>secretKey := CryptoKey k\<rparr>) w')
         \<and> ((\<forall>c ps. keyLength opts \<noteq> Obj c ps) \<longrightarrow>
              (\<exists>evs. calls (snd (webTimingSafeEqual P left right opts w))
                       = calls w @ GenerateKeyCall (Str ''SHA-256'') (Some (Bits 512)) True
                                     [''sign''] # evs
                 \<and> (\<forall>ev \<in> set evs. \<exists>k m. ev = SignCall (CryptoKey k) m
                        \<and> fst (prov_generateKey P (Str ''SHA-256'') (Some (Bits 512)) True
                                 [''sign''] (pstate w)) = Inr k))))
      \<and> (truthy (secretKey opts) \<longrightarrow>
           webTimingSafeEqual P left right opts w =
             (case validateValueOrConvertToUint8Array left of
                Inl e \<Rightarrow> (Inl e, w)
              | Inr leftUint8Array \<Rightarrow>
             (case validateValueOrConvertToUint8Array right of
                Inl e \<Rightarrow> (Inl e, w)
              | Inr rightUint8Array \<Rightarrow>
                (if length leftUint8Array \<noteq> length rightUint8Array \<or> length leftUint8Array = 0
                 then (Inr False, w)
                 else
                   (case promise_all_hmac P (secretKey opts) (Uint8Array leftUint8Array)
                           (Uint8Array rightUint8Array)
                           (if truthy (hmacAlgorithm opts) then hmacAlgorithm opts else Undefined)
                           w of
                      (Inl e, w2) \<Rightarrow> (Inl e, w2)
                    | (Inr (leftHMAC, rightHMAC), w2) \<Rightarrow> (Inr (leftHMAC = rightHMAC), w2)))))
         \<and> (\<exists>evs. calls (snd (webTimingSafeEqual P left right opts w)) = calls w @ evs
               \<and> (\<forall>ev \<in> set evs. \<not> is_generateKey ev))
         \<and> (deterministic_signing P \<longrightarrow>
              (\<forall>l r. validateValueOrConvertToUint8Array left = Inr l
                   \<and> validateValueOrConvertToUint8Array right = Inr r
                   \<and> length l = length r \<and> l \<noteq> [] \<longrightarrow>
                 fst (webTimingSafeEqual P left right opts w) =
                   (case fst (hmac P (secretKey opts) (Uint8Array l)
                                (if truthy (hmacAlgorithm opts) then hmacAlgorithm opts
                                 else Undefined) w) of
                      Inl e \<Rightarrow> Inl e
                    | Inr leftHMAC \<Rightarrow>
                       (case fst (hmac P (secretKey opts) (Uint8Array r)
                                    (if truthy (hmacAlgorithm opts) then hmacAlgorithm opts
                                     else Undefined) w) of
                          Inl e \<Rightarrow> Inl e
                        | Inr rightHMAC \<Rightarrow> Inr (leftHMAC = rightHMAC)))))))"
proof (intro conjI impI; (elim conjE)?)
  assume f: "\<not> truthy (secretKey opts)"
  have "resolve_secretKey P (opts\<lparr>secretKey := Undefined\<rparr>) w = resolve_secretKey P opts w"
    using f by (simp add: resolve_secretKey_def generated_key_options_def)
  then show "webTimingSafeEqual P left right opts w
         = webTimingSafeEqual P left right (opts\<lparr>secretKey := Undefined\<rparr>) w"
    by (simp add: webTimingSafeEqual_def cong: sum.case_cong prod.case_cong if_cong)
next
  assume a1: "\<not> truthy (keyAlgorithm opts) \<or> validateAlgorithm (keyAlgorithm opts) = Inr ()"
    and a2: "\<not> truthy (hmacAlgorithm opts) \<or> validateAlgorithm (hmacAlgorithm opts) = Inr ()"
    and f: "\<not> truthy (secretKey opts)"
  show "webTimingSafeEqual P left right opts w =
             (case generateSecretKey P (generated_key_options opts) w of
                (Inl e, w') \<Rightarrow> (Inl e, w')
              | (Inr k, w') \<Rightarrow>
                  webTimingSafeEqual P left right (opts\<lparr>secretKey := CryptoKey k\<rparr>) w')"
    by (rule webTimingSafeEqual_generated [OF a1 a2 f])
next
  assume a1: "\<not> truthy (keyAlgorithm opts) \<or> validateAlgorithm (keyAlgorithm opts) = Inr ()"
    and a2: "\<not> truthy (hmacAlgorithm opts) \<or> validateAlgorithm (hmacAlgorithm opts) = Inr ()"
    and f: "\<not> truthy (secretKey opts)"
    and n: "\<forall>c ps. keyLength opts \<noteq> Obj c ps"
  show "\<exists>evs. calls (snd (webTimingSafeEqual P left right opts w))
                       = calls w @ GenerateKeyCall (Str ''SHA-256'') (Some (Bits 512)) True
                                     [''sign''] # evs
                 \<and> (\<forall>ev \<in> set evs. \<exists>k m. ev = SignCall (CryptoKey k) m
                        \<and> fst (prov_generateKey P (Str ''SHA-256'') (Some (Bits 512)) True
                                 [''sign''] (pstate w)) = Inr k)"
    by (rule webTimingSafeEqual_generated_calls [OF a1 a2 f n])
next
  assume a1: "\<not> truthy (keyAlgorithm opts) \<or> validateAlgorithm (keyAlgorithm opts) = Inr ()"
    and a2: "\<not> truthy (hmacAlgorithm opts) \<or> validateAlgorithm (hmacAlgorithm opts) = Inr ()"
    and t: "truthy (secretKey opts)"
  from t have r: "resolve_secretKey P opts w = (Inr (secretKey opts), w)"
    by (simp add: resolve_secretKey_def)
  show "webTimingSafeEqual P left right opts w =
             (case validateValueOrConvertToUint8Array left of
                Inl e \<Rightarrow> (Inl e, w)
              | Inr leftUint8Array \<Rightarrow>
             (case validateValueOrConvertToUint8Array right of
                Inl e \<Rightarrow> (Inl e, w)
              | Inr rightUint8Array \<Rightarrow>
                (if length leftUint8Array \<noteq> length rightUint8Array \<or> length leftUint8Array = 0
                 then (Inr False, w)
                 else
                   (case promise_all_hmac P (secretKey opts) (Uint8Array leftUint8Array)
                           (Uint8Array rightUint8Array)
                           (if truthy (hmacAlgorithm opts) then hmacAlgorithm opts else Undefined)
                           w of
                      (Inl e, w2) \<Rightarrow> (Inl e, w2)
                    | (Inr (leftHMAC, rightHMAC), w2) \<Rightarrow> (Inr (leftHMAC = rightHMAC), w2)))))"
    by (rule webTimingSafeEqual_resolved [OF a1 a2 r refl])
next
  assume t: "truthy (secretKey opts)"
  then have r: "resolve_secretKey P opts w = (Inr (secretKey opts), w)"
    by (simp add: resolve_secretKey_def)
  let ?R = "snd (webTimingSafeEqual P left right opts w)"
  from webTimingSafeEqual_snd [of P left right opts w]
  show "\<exists>evs. calls ?R = calls w @ evs \<and> (\<forall>ev \<in> set evs. \<not> is_generateKey ev)"
  proof (elim disjE exE conjE)
    assume "?R = w"
    then show ?thesis by (intro exI [of _ "[]"]) simp
  next
    assume "?R = snd (resolve_secretKey P opts w)"
    with r show ?thesis by (intro exI [of _ "[]"]) simp
  next
    fix key w1 l r' a
    assume res: "resolve_secretKey P opts w = (Inr key, w1)"
      and s: "?R = snd (promise_all_hmac P key l r' a w1)"
    from res r have "w1 = w" by simp
    with s promise_all_hmac_calls [of P key l r' a w] show ?thesis by simp
  qed
next
  assume a1: "\<not> truthy (keyAlgorithm opts) \<or> validateAlgorithm (keyAlgorithm opts) = Inr ()"
    and a2: "\<not> truthy (hmacAlgorithm opts) \<or> validateAlgorithm (hmacAlgorithm opts) = Inr ()"
    and t: "truthy (secretKey opts)"
    and det: "deterministic_signing P"
  from t have r: "resolve_secretKey P opts w = (Inr (secretKey opts), w)"
    by (simp add: resolve_secretKey_def)
  show "\<forall>l r. validateValueOrConvertToUint8Array left = Inr l
                   \<and> validateValueOrConvertToUint8Array right = Inr r
                   \<and> length l = length r \<and> l \<noteq> [] \<longrightarrow>
                 fst (webTimingSafeEqual P left right opts w) =
                   (case fst (hmac P (secretKey opts) (Uint8Array l)
                                (if truthy (hmacAlgorithm opts) then hmacAlgorithm opts
                                 else Undefined) w) of
                      Inl e \<Rightarrow> Inl e
                    | Inr leftHMAC \<Rightarrow>
                       (case fst (hmac P (secretKey opts) (Uint8Array r)
                                    (if truthy (hmacAlgorithm opts) then hmacAlgorithm opts
                                     else Undefined) w) of
                          Inl e \<Rightarrow> Inl e
                        | Inr rightHMAC \<Rightarrow> Inr (leftHMAC = rightHMAC)))"
  proof (intro allI impI, elim conjE)
    fix l r
    assume vl: "validateValueOrConvertToUint8Array left = Inr l"
      and vr: "validateValueOrConvertToUint8Array right = Inr r"
      and len: "length l = length r" and ne: "l \<noteq> []"
    show "fst (webTimingSafeEqual P left right opts w) =
                   (case fst (hmac P (secretKey opts) (Uint8Array l)
                                (if truthy (hmacAlgorithm opts) then hmacAlgorithm opts
                                 else Undefined) w) of
                      Inl e \<Rightarrow> Inl e
                    | Inr leftHMAC \<Rightarrow>
                       (case fst (hmac P (secretKey opts) (Uint8Array r)
                                    (if truthy (hmacAlgorithm opts) then hmacAlgorithm opts
                                     else Undefined) w) of
                          Inl e \<Rightarrow> Inl e
                        | Inr rightHMAC \<Rightarrow> Inr (leftHMAC = rightHMAC)))"
      by (rule webTimingSafeEqual_double_hmac [OF det a1 a2 r vl vr len ne])
  qed
qed

text \<open>
  \<^verbatim>\<open>{secretKey: ""}\<close>: a key is generated and signs. \<^verbatim>\<open>{secretKey: "k"}\<close>: both \<open>hmac\<close>
  calls get \<^verbatim>\<open>"k"\<close>.
\<close>

theorem falsy_secretKey_treated_as_absent_witness:
  "\<not> truthy (Str [])
   \<and> webTimingSafeEqual model_provider (Str ''a'') (Str ''a'') (no_options\<lparr>secretKey := Str []\<rparr>)
        initial_world
     = webTimingSafeEqual model_provider (Str ''a'') (Str ''a'')
        (no_options\<lparr>secretKey := Undefined\<rparr>) initial_world
   \<and> (\<exists>evs. calls (snd (webTimingSafeEqual model_provider (Str ''a'') (Str ''a'')
                           (no_options\<lparr>secretKey := Str []\<rparr>) initial_world))
              = GenerateKeyCall (Str ''SHA-256'') (Some (Bits 512)) True [''sign''] # evs
          \<and> (\<forall>ev \<in> set evs. \<exists>m. ev = SignCall (CryptoKey generated_key) m))
   \<and> webTimingSafeEqual model_provider (Str ''a'') (Str ''a'') (no_options\<lparr>secretKey := Str ''k''\<rparr>)
        initial_world
     = (case promise_all_hmac model_provider (Str ''k'') (Uint8Array (TextEncoder_encode ''a''))
              (Uint8Array (TextEncoder_encode ''a'')) Undefined initial_world of
          (Inl e, w2) \<Rightarrow> (Inl e, w2)
        | (Inr (leftHMAC, rightHMAC), w2) \<Rightarrow> (Inr (leftHMAC = rightHMAC), w2))
   \<and> fst (webTimingSafeEqual model_provider (Str ''a'') (Str ''a'')
            (no_options\<lparr>secretKey := Str ''k''\<rparr>) initial_world)
     = (case fst (hmac model_provider (Str ''k'') (Uint8Array (TextEncoder_encode ''a''))
                    Undefined initial_world) of
          Inl e \<Rightarrow> Inl e
        | Inr leftHMAC \<Rightarrow>
           (case fst (hmac model_provider (Str ''k'') (Uint8Array (TextEncoder_encode ''a''))
                        Undefined initial_world) of
              Inl e \<Rightarrow> Inl e
            | Inr rightHMAC \<Rightarrow> Inr (leftHMAC = rightHMAC)))"
proof -
  let ?e = "no_options\<lparr>secretKey := Str []\<rparr>"
  let ?k = "no_options\<lparr>secretKey := Str ''k''\<rparr>"
  have 0: "\<not> truthy (Str [])" by simp
  have f: "\<not> truthy (secretKey ?e)" by simp
  have t: "truthy (secretKey ?k)" by simp
  have ae: "(\<not> truthy (keyAlgorithm ?e) \<or> validateAlgorithm (keyAlgorithm ?e) = Inr ())
      \<and> (\<not> truthy (hmacAlgorithm ?e) \<or> validateAlgorithm (hmacAlgorithm ?e) = Inr ())"
    by (simp add: no_options_def)
  have ak: "(\<not> truthy (keyAlgorithm ?k) \<or> validateAlgorithm (keyAlgorithm ?k) = Inr ())
      \<and> (\<not> truthy (hmacAlgorithm ?k) \<or> validateAlgorithm (hmacAlgorithm ?k) = Inr ())"
    by (simp add: no_options_def)
  have n: "\<forall>c ps. keyLength ?e \<noteq> Obj c ps" by (simp add: no_options_def)
  note a = falsy_secretKey_treated_as_absent [where opts = ?e
      and P = model_provider and left = "Str ''a''" and right = "Str ''a''" and w = initial_world,
      THEN conjunct1, THEN mp, OF f]
  from a have 1: "webTimingSafeEqual model_provider (Str ''a'') (Str ''a'') ?e initial_world
     = webTimingSafeEqual model_provider (Str ''a'') (Str ''a'')
        (no_options\<lparr>secretKey := Undefined\<rparr>) initial_world"
    by simp
  note b = falsy_secretKey_treated_as_absent [where opts = ?e
      and P = model_provider and left = "Str ''a''" and right = "Str ''a''" and w = initial_world,
      THEN conjunct2, THEN mp, OF ae, THEN conjunct1, THEN mp, OF f, THEN conjunct2, THEN mp, OF n]
  have g: "fst (prov_generateKey model_provider (Str ''SHA-256'') (Some (Bits 512)) True [''sign'']
                  (pstate initial_world)) = Inr generated_key"
    by (simp add: model_provider_def initial_world_def fresh_key_def digest_size_def
        generated_key_def)
  from b obtain evs where
    c: "calls (snd (webTimingSafeEqual model_provider (Str ''a'') (Str ''a'') ?e initial_world))
          = calls initial_world @ GenerateKeyCall (Str ''SHA-256'') (Some (Bits 512)) True [''sign''] # evs"
    and s: "\<forall>ev \<in> set evs. \<exists>k m. ev = SignCall (CryptoKey k) m
              \<and> fst (prov_generateKey model_provider (Str ''SHA-256'') (Some (Bits 512)) True
                       [''sign''] (pstate initial_world)) = Inr k"
    by (elim exE conjE)
  from c have c': "calls (snd (webTimingSafeEqual model_provider (Str ''a'') (Str ''a'') ?e initial_world))
          = GenerateKeyCall (Str ''SHA-256'') (Some (Bits 512)) True [''sign''] # evs"
    by (simp add: initial_world_def)
  from s have s': "\<forall>ev \<in> set evs. \<exists>m. ev = SignCall (CryptoKey generated_key) m"
    unfolding g by auto
  from c' s' have 2: "\<exists>evs. calls (snd (webTimingSafeEqual model_provider (Str ''a'') (Str ''a'')
                           ?e initial_world))
              = GenerateKeyCall (Str ''SHA-256'') (Some (Bits 512)) True [''sign''] # evs
          \<and> (\<forall>ev \<in> set evs. \<exists>m. ev = SignCall (CryptoKey generated_key) m)"
    by (intro exI [of _ evs] conjI)
  note d = falsy_secretKey_treated_as_absent [where opts = ?k
      and P = model_provider and left = "Str ''a''" and right = "Str ''a''" and w = initial_world,
      THEN conjunct2, THEN mp, OF ak, THEN conjunct2, THEN mp, OF t, THEN conjunct1]
  have ne: "TextEncoder_encode ''a'' \<noteq> []"
    by (simp add: TextEncoder_encode_def utf8_char_def)
  have 3: "webTimingSafeEqual model_provider (Str ''a'') (Str ''a'') ?k initial_world
     = (case promise_all_hmac model_provider (Str ''k'') (Uint8Array (TextEncoder_encode ''a''))
              (Uint8Array (TextEncoder_encode ''a'')) Undefined initial_world of
          (Inl e, w2) \<Rightarrow> (Inl e, w2)
        | (Inr (leftHMAC, rightHMAC), w2) \<Rightarrow> (Inr (leftHMAC = rightHMAC), w2))"
    unfolding d
    by (simp add: validateValueOrConvertToUint8Array_def ne no_options_def)
  have v: "validateValueOrConvertToUint8Array (Str ''a'') = Inr (TextEncoder_encode ''a'')
      \<and> validateValueOrConvertToUint8Array (Str ''a'') = Inr (TextEncoder_encode ''a'')
      \<and> length (TextEncoder_encode ''a'') = length (TextEncoder_encode ''a'')
      \<and> TextEncoder_encode ''a'' \<noteq> []"
    by (simp add: validateValueOrConvertToUint8Array_def ne)
  note h = falsy_secretKey_treated_as_absent [where opts = ?k
      and P = model_provider and left = "Str ''a''" and right = "Str ''a''" and w = initial_world,
      THEN conjunct2, THEN mp, OF ak, THEN conjunct2, THEN mp, OF t, THEN conjunct2,
      THEN conjunct2, THEN mp, OF model_provider_deterministic, THEN spec, THEN spec,
      THEN mp, OF v]
  have 4: "fst (webTimingSafeEqual model_provider (Str ''a'') (Str ''a'') ?k initial_world)
     = (case fst (hmac model_provider (Str ''k'') (Uint8Array (TextEncoder_encode ''a''))
                    Undefined initial_world) of
          Inl e \<Rightarrow> Inl e
        | Inr leftHMAC \<Rightarrow>
           (case fst (hmac model_provider (Str ''k'') (Uint8Array (TextEncoder_encode ''a''))
                        Undefined initial_world) of
              Inl e \<Rightarrow> Inl e
            | Inr rightHMAC \<Rightarrow> Inr (leftHMAC = rightHMAC)))"
    unfolding h by (simp add: no_options_def cong: sum.case_cong)
  from 0 1 2 3 4 show ?thesis by (intro conjI)
qed

subsection \<open>C10: the key of hmac\<close>

text \<open>
  C10. Let the algorithm of a call to \<open>hmac\<close> be supported. A key that is neither
  named \<^verbatim>\<open>CryptoKey\<close> by its constructor nor text nor bytes makes \<open>hmac\<close> fail with
  \<open>InvalidInputType\<close> in an unchanged world. For a message that is text or bytes: a
  key whose constructor is named \<^verbatim>\<open>CryptoKey\<close> is passed to \<^verbatim>\<open>sign\<close> as it is, and that
  is the only provider call; any other key that is text or bytes is converted to
  bytes and imported, not extractable and for signing, bound to the algorithm of
  the call, and the imported key signs.
\<close>

theorem hmac_key_dispatch:
  assumes "validateAlgorithm (or_default algorithm (Str ''SHA-256'')) = Inr ()"
  shows "(constructor_name key \<noteq> Some ''CryptoKey''
            \<and> validateValueOrConvertToUint8Array key = Inl InvalidInputType
          \<longrightarrow> hmac P key message algorithm w = (Inl InvalidInputType, w))
       \<and> (\<forall>m. validateValueOrConvertToUint8Array message = Inr m \<longrightarrow>
            (constructor_name key = Some ''CryptoKey'' \<longrightarrow>
               hmac P key message algorithm w =
                 (case subtle_sign P key m w of
                    (Inl e, w') \<Rightarrow> (Inl e, w')
                  | (Inr s, w') \<Rightarrow> (Inr (hashHex s), w'))
               \<and> calls (snd (hmac P key message algorithm w)) = calls w @ [SignCall key m])
          \<and> (constructor_name key \<noteq> Some ''CryptoKey'' \<longrightarrow>
               (\<forall>raw. validateValueOrConvertToUint8Array key = Inr raw \<longrightarrow>
                  hmac P key message algorithm w =
                    (case subtle_importKey P raw (or_default algorithm (Str ''SHA-256''))
                            False [''sign''] w of
                       (Inl e, w') \<Rightarrow> (Inl e, w')
                     | (Inr k, w') \<Rightarrow>
                        (case subtle_sign P (CryptoKey k) m w' of
                           (Inl e, w'') \<Rightarrow> (Inl e, w'')
                         | (Inr s, w'') \<Rightarrow> (Inr (hashHex s), w''))))))"
proof -
  have v: "validateValueOrConvertToUint8Array x = Inl e \<Longrightarrow> e = InvalidInputType" for x e
    by (auto simp: validateValueOrConvertToUint8Array_def split: if_splits)
  have a: "constructor_name key \<noteq> Some ''CryptoKey''
            \<and> validateValueOrConvertToUint8Array key = Inl InvalidInputType
          \<longrightarrow> hmac P key message algorithm w = (Inl InvalidInputType, w)"
    using assms by (auto simp: hmac_def hmac_prepare_def hmac_sign_def Let_def split: sum.splits dest: v)
  have b: "hmac P key message algorithm w =
                 (case subtle_sign P key m w of
                    (Inl e, w') \<Rightarrow> (Inl e, w')
                  | (Inr s, w') \<Rightarrow> (Inr (hashHex s), w'))
               \<and> calls (snd (hmac P key message algorithm w)) = calls w @ [SignCall key m]"
    if "validateValueOrConvertToUint8Array message = Inr m" "constructor_name key = Some ''CryptoKey''" for m
    using assms that
    by (simp add: hmac_def hmac_prepare_def hmac_sign_def Let_def subtle_sign_eq split: sum.splits)
  have c: "hmac P key message algorithm w =
                    (case subtle_importKey P raw (or_default algorithm (Str ''SHA-256''))
                            False [''sign''] w of
                       (Inl e, w') \<Rightarrow> (Inl e, w')
                     | (Inr k, w') \<Rightarrow>
                        (case subtle_sign P (CryptoKey k) m w' of
                           (Inl e, w'') \<Rightarrow> (Inl e, w'')
                         | (Inr s, w'') \<Rightarrow> (Inr (hashHex s), w'')))"
    if "validateValueOrConvertToUint8Array message = Inr m" "constructor_name key \<noteq> Some ''CryptoKey''"
       "validateValueOrConvertToUint8Array key = Inr raw" for m raw
    using assms that
    by (simp add: hmac_def hmac_prepare_def hmac_sign_def Let_def split: sum.splits prod.splits)
  from a b c show ?thesis by blast
qed

text \<open>
  The keys \<^verbatim>\<open>5\<close>, an object of a class named \<^verbatim>\<open>CryptoKey\<close> that the provider did not make,
  and \<^verbatim>\<open>"k"\<close>.
\<close>

theorem hmac_key_dispatch_witness:
  "hmac model_provider (Number 5) (Str ''abc'') (Str ''SHA-256'') initial_world
     = (Inl InvalidInputType, initial_world)
   \<and> calls (snd (hmac model_provider (Obj ''CryptoKey'' []) (Str ''abc'') (Str ''SHA-256'')
        initial_world))
     = [SignCall (Obj ''CryptoKey'' []) (TextEncoder_encode ''abc'')]
   \<and> calls (snd (hmac model_provider (Str ''k'') (Str ''abc'') (Str ''SHA-256'') initial_world))
     = [ImportKeyCall (TextEncoder_encode ''k'') (Str ''SHA-256'') False [''sign''],
        SignCall (CryptoKey \<lparr>key_material = TextEncoder_encode ''k'', key_hash = ''SHA-256'',
                    key_extractable = False, key_usages = [''sign'']\<rparr>)
          (TextEncoder_encode ''abc'')]"
proof -
  have v: "validateAlgorithm (or_default (Str ''SHA-256'') (Str ''SHA-256'')) = Inr ()"
    by (simp add: or_default_def validateAlgorithm_def array_includes_def allowedAlgorithms_def)
  have m: "validateValueOrConvertToUint8Array (Str ''abc'') = Inr (TextEncoder_encode ''abc'')"
    by (simp add: validateValueOrConvertToUint8Array_def)
  have k5: "constructor_name (Number 5) \<noteq> Some ''CryptoKey''
            \<and> validateValueOrConvertToUint8Array (Number 5) = Inl InvalidInputType"
    by (simp add: validateValueOrConvertToUint8Array_def)
  have 1: "hmac model_provider (Number 5) (Str ''abc'') (Str ''SHA-256'') initial_world
     = (Inl InvalidInputType, initial_world)"
    by (rule hmac_key_dispatch [OF v, THEN conjunct1, THEN mp, OF k5])
  have ko: "constructor_name (Obj ''CryptoKey'' []) = Some ''CryptoKey''" by simp
  note d = hmac_key_dispatch [OF v, where key = "Obj ''CryptoKey'' []" and P = model_provider
      and message = "Str ''abc''" and w = initial_world,
      THEN conjunct2, THEN spec, THEN mp, OF m, THEN conjunct1, THEN mp, OF ko, THEN conjunct2]
  have 2: "calls (snd (hmac model_provider (Obj ''CryptoKey'' []) (Str ''abc'') (Str ''SHA-256'')
        initial_world))
     = [SignCall (Obj ''CryptoKey'' []) (TextEncoder_encode ''abc'')]"
    unfolding d by (simp add: initial_world_def)
  have ks: "constructor_name (Str ''k'') \<noteq> Some ''CryptoKey''" by simp
  have kv: "validateValueOrConvertToUint8Array (Str ''k'') = Inr (TextEncoder_encode ''k'')"
    by (simp add: validateValueOrConvertToUint8Array_def)
  note e = hmac_key_dispatch [OF v, where key = "Str ''k''" and P = model_provider
      and message = "Str ''abc''" and w = initial_world,
      THEN conjunct2, THEN spec, THEN mp, OF m, THEN conjunct2, THEN mp, OF ks,
      THEN spec, THEN mp, OF kv]
  have ne: "TextEncoder_encode ''k'' \<noteq> []"
    by (simp add: TextEncoder_encode_def utf8_char_def)
  have 3: "calls (snd (hmac model_provider (Str ''k'') (Str ''abc'') (Str ''SHA-256'') initial_world))
     = [ImportKeyCall (TextEncoder_encode ''k'') (Str ''SHA-256'') False [''sign''],
        SignCall (CryptoKey \<lparr>key_material = TextEncoder_encode ''k'', key_hash = ''SHA-256'',
                    key_extractable = False, key_usages = [''sign'']\<rparr>)
          (TextEncoder_encode ''abc'')]"
    unfolding e
    by (simp add: ne subtle_importKey_eq subtle_sign_eq model_provider_def initial_world_def
        or_default_def digest_size_def)
  from 1 2 3 show ?thesis by (intro conjI)
qed

end
